theory Spec2Isabelle
  imports Main "HOL-Library.Sublist"
begin

section \<open>Exceptions\<close>

text \<open>
  The Python exceptions the modelled code raises, as values. \<open>ValueError\<close> carries its
  message; \<open>AssertionError\<close> is what a failed \<^verbatim>\<open>assert\<close> raises; \<open>RuntimeError\<close> is what
  torch raises when the shapes of a matrix product do not fit; \<open>Raised\<close> stands for an
  exception coming out of a collaborator that is a parameter of the model.
\<close>

datatype py_error =
    ValueError string
  | AssertionError
  | ConfigurationError
  | RuntimeError
  | Raised string

section \<open>RoBERTa tokenizer construction (tokenization/roberta_tokenizer.py)\<close>

text \<open>
  \<^verbatim>\<open>ByteBPEProcessor\<close> belongs to the external package \<^verbatim>\<open>cutlery\<close>. The constructor of the
  tokenizer uses one method of it, \<^verbatim>\<open>piece_id\<close>, which returns the id of a piece or
  \<^verbatim>\<open>None\<close>.
\<close>

record ByteBPEProcessor =
  piece_id :: "string \<Rightarrow> int option"

record RobertaPreDecoder =
  pd_bos_id :: int
  pd_eos_id :: int

record RobertaPostEncoder =
  pe_bos_piece :: string
  pe_eos_piece :: string
  pe_bos_id :: int
  pe_eos_id :: int

record RobertaTokenizer =
  processor :: ByteBPEProcessor
  pre_decoder :: RobertaPreDecoder
  post_encoder :: RobertaPostEncoder

text \<open>
  The message of \<^verbatim>\<open>_get_piece_id_or_fail\<close>:
  \<^verbatim>\<open>f"RoBERTa piece encoder vocabulary doesn't contain '{piece}' piece"\<close>.
  The apostrophe is \<open>CHR 0x27\<close>.
\<close>

definition missing_piece_message :: "string \<Rightarrow> string" where
  "missing_piece_message piece =
     ''RoBERTa piece encoder vocabulary doesn'' @ [CHR 0x27] @ ''t contain '' @ [CHR 0x27]
       @ piece @ [CHR 0x27] @ '' piece''"

definition get_piece_id_or_fail :: "ByteBPEProcessor \<Rightarrow> string \<Rightarrow> py_error + int" where
  "get_piece_id_or_fail proc piece =
     (case piece_id proc piece of
        None \<Rightarrow> Inl (ValueError (missing_piece_message piece))
      | Some i \<Rightarrow> Inr i)"

text \<open>
  \<^verbatim>\<open>RobertaTokenizer.__init__\<close>: the begin-of-sequence piece is looked up first, then the
  end-of-sequence piece; the two ids found are handed to the pre-decoder and the
  post-encoder. An exception of either lookup leaves the constructor, so no tokenizer
  object results.
\<close>

definition RobertaTokenizer_init ::
  "ByteBPEProcessor \<Rightarrow> string \<Rightarrow> string \<Rightarrow> py_error + RobertaTokenizer" where
  "RobertaTokenizer_init proc bos_piece eos_piece =
     (case get_piece_id_or_fail proc bos_piece of
        Inl e \<Rightarrow> Inl e
      | Inr bos_id \<Rightarrow>
          (case get_piece_id_or_fail proc eos_piece of
             Inl e \<Rightarrow> Inl e
           | Inr eos_id \<Rightarrow>
               Inr \<lparr> processor = proc,
                     pre_decoder = \<lparr> pd_bos_id = bos_id, pd_eos_id = eos_id \<rparr>,
                     post_encoder = \<lparr> pe_bos_piece = bos_piece, pe_eos_piece = eos_piece,
                                      pe_bos_id = bos_id, pe_eos_id = eos_id \<rparr> \<rparr>))"

section \<open>Position ids of the encoder (spacy\_experimental/transformers/models/torch\_transformer/encoder.py)\<close>

text \<open>
  A tensor of token ids of shape (batch, seq\_len) is a list of rows. \<^verbatim>\<open>x.ne(padding_idx).int()\<close>
  is 1 where the id differs from the padding index and 0 elsewhere.
\<close>

definition ne_int :: "int list list \<Rightarrow> int \<Rightarrow> int list list" where
  "ne_int x padding_idx = map (map (\<lambda>v. if v \<noteq> padding_idx then 1 else 0)) x"

text \<open>\<^verbatim>\<open>cumsum(dim=1)\<close>: the running sum along each row, the current element included.\<close>

fun cumsum_from :: "int \<Rightarrow> int list \<Rightarrow> int list" where
  "cumsum_from acc [] = []"
| "cumsum_from acc (v # vs) = (acc + v) # cumsum_from (acc + v) vs"

definition cumsum_dim1 :: "int list list \<Rightarrow> int list list" where
  "cumsum_dim1 t = map (cumsum_from 0) t"

text \<open>Elementwise product of two tensors of one shape, and addition of a scalar.\<close>

definition tensor_mul :: "int list list \<Rightarrow> int list list \<Rightarrow> int list list" where
  "tensor_mul a b = map2 (map2 (*)) a b"

definition tensor_add_scalar :: "int list list \<Rightarrow> int \<Rightarrow> int list list" where
  "tensor_add_scalar a k = map (map (\<lambda>v. v + k)) a"

text \<open>
  The fields of \<^verbatim>\<open>TransformerEncoder\<close> that \<^verbatim>\<open>_get_pos_embeddings\<close> reads. The embedding
  module \<^verbatim>\<open>pos_embeddings\<close> (a learned table or the sinusoidal embedding, both outside
  the sources) is a function from a tensor of integers to an embedding.
\<close>

record 'e TransformerEncoder =
  te_padding_idx :: int
  te_learnable_pos_embeddings :: bool
  te_pos_embeddings :: "int list list \<Rightarrow> 'e"

text \<open>
  The two assignments of the learned branch:
  \<^verbatim>\<open>mask = x.ne(self.padding_idx).int()\<close> and
  \<^verbatim>\<open>pos_ids = (mask.cumsum(dim=1) * mask) + self.padding_idx\<close>.
\<close>

definition pos_ids :: "int \<Rightarrow> int list list \<Rightarrow> int list list" where
  "pos_ids padding_idx x =
     (let mask = ne_int x padding_idx
      in tensor_add_scalar (tensor_mul (cumsum_dim1 mask) mask) padding_idx)"

definition get_pos_embeddings :: "'e TransformerEncoder \<Rightarrow> int list list \<Rightarrow> 'e" where
  "get_pos_embeddings enc x =
     (if te_learnable_pos_embeddings enc
      then te_pos_embeddings enc (pos_ids (te_padding_idx enc) x)
      else te_pos_embeddings enc x)"

text \<open>The number of non-padding ids among the first \<open>n\<close> ids of a row.\<close>

definition non_padding_count :: "int \<Rightarrow> int list \<Rightarrow> nat \<Rightarrow> nat" where
  "non_padding_count padding_idx row n = length (filter (\<lambda>v. v \<noteq> padding_idx) (take n row))"

section \<open>RoBERTa encoders (models/roberta/encoder.py)\<close>

text \<open>
  \<^verbatim>\<open>RobertaEncoder\<close> and \<^verbatim>\<open>QuantizedRobertaEncoder\<close> hold an embedding module, the padding
  index, the maximal sequence length and a list of layers. The modules
  \<^verbatim>\<open>RobertaEmbeddings\<close>, \<^verbatim>\<open>BertEncoderLayer\<close> and \<^verbatim>\<open>QuantizedBertEncoderLayer\<close> are outside the
  sources: the embedding module is a function of the input ids, the optional token type
  ids and the optional position ids, a layer is a function of the hidden states (of an
  arbitrary type \<open>'h\<close>) and the attention mask.
\<close>

record 'h RobertaEncoder =
  re_embeddings :: "int list list \<Rightarrow> int list list option \<Rightarrow> int list list option \<Rightarrow> 'h"
  re_padding_idx :: int
  re_max_seq_len :: int
  re_layers :: "('h \<Rightarrow> int list list \<Rightarrow> 'h) list"

record 'h QuantizedRobertaEncoder =
  qre_embeddings :: "int list list \<Rightarrow> int list list option \<Rightarrow> int list list option \<Rightarrow> 'h"
  qre_padding_idx :: int
  qre_max_seq_len :: int
  qre_layers :: "('h \<Rightarrow> int list list \<Rightarrow> 'h) list"

record 'h TransformerEncoderOutput =
  embedding_output :: 'h
  layer_hidden_states :: "'h list"

text \<open>
  The loop over the layers: each layer receives the output of the one before it (the
  embeddings for the first) and the attention mask, and its output is appended to
  \<^verbatim>\<open>layer_outputs\<close>.
\<close>

fun run_layers :: "('h \<Rightarrow> 'm \<Rightarrow> 'h) list \<Rightarrow> 'h \<Rightarrow> 'm \<Rightarrow> 'h list" where
  "run_layers [] layer_output attention_mask = []"
| "run_layers (layer # rest) layer_output attention_mask =
     (let out = layer layer_output attention_mask
      in out # run_layers rest out attention_mask)"

definition RobertaEncoder_create_attention_mask ::
  "'h RobertaEncoder \<Rightarrow> int list list \<Rightarrow> int list list" where
  "RobertaEncoder_create_attention_mask enc x = ne_int x (re_padding_idx enc)"

definition RobertaEncoder_forward ::
  "'h RobertaEncoder \<Rightarrow> int list list \<Rightarrow> int list list option \<Rightarrow> int list list option
     \<Rightarrow> 'h TransformerEncoderOutput" where
  "RobertaEncoder_forward enc input_ids attention_mask token_type_ids =
     (let attention_mask =
            (case attention_mask of
               None \<Rightarrow> RobertaEncoder_create_attention_mask enc input_ids
             | Some m \<Rightarrow> m);
          embeddings = re_embeddings enc input_ids token_type_ids None
      in \<lparr> embedding_output = embeddings,
           layer_hidden_states = run_layers (re_layers enc) embeddings attention_mask \<rparr>)"

definition QuantizedRobertaEncoder_create_attention_mask ::
  "'h QuantizedRobertaEncoder \<Rightarrow> int list list \<Rightarrow> int list list" where
  "QuantizedRobertaEncoder_create_attention_mask enc x = ne_int x (qre_padding_idx enc)"

definition QuantizedRobertaEncoder_forward ::
  "'h QuantizedRobertaEncoder \<Rightarrow> int list list \<Rightarrow> int list list option
     \<Rightarrow> int list list option \<Rightarrow> 'h TransformerEncoderOutput" where
  "QuantizedRobertaEncoder_forward enc input_ids attention_mask token_type_ids =
     (let attention_mask =
            (case attention_mask of
               None \<Rightarrow> QuantizedRobertaEncoder_create_attention_mask enc input_ids
             | Some m \<Rightarrow> m);
          embeddings = qre_embeddings enc input_ids token_type_ids None
      in \<lparr> embedding_output = embeddings,
           layer_hidden_states = run_layers (qre_layers enc) embeddings attention_mask \<rparr>)"

section \<open>Loading a module by its model type (util/auto\_model.py)\<close>

subsection \<open>\<^verbatim>\<open>repr\<close> of a string and of a tuple of strings\<close>

text \<open>
  The error message of \<^verbatim>\<open>_instantiate_module_from_hf_hub\<close> formats
  \<^verbatim>\<open>tuple(model_type_to_class_map.keys())\<close>, which prints each key with \<^verbatim>\<open>repr\<close>. A
  \<open>string\<close> stands for a Python \<^verbatim>\<open>str\<close> of code points below 256. \<^verbatim>\<open>repr\<close> quotes with
  apostrophes, or with double quotes when the string holds an apostrophe and no double
  quote; it escapes the quote character and the backslash, writes tab, line feed and
  carriage return as \<^verbatim>\<open>\t\<close>, \<^verbatim>\<open>\n\<close>, \<^verbatim>\<open>\r\<close>, and every other code point that is not
  printable as \<^verbatim>\<open>\xhh\<close>.
\<close>

definition hex_digit :: "nat \<Rightarrow> char" where
  "hex_digit n = ''0123456789abcdef'' ! n"

definition hex_escape :: "char \<Rightarrow> string" where
  "hex_escape c =
     [CHR 0x5C, CHR ''x'', hex_digit (of_char c div 16), hex_digit (of_char c mod 16)]"

definition py_printable :: "char \<Rightarrow> bool" where
  "py_printable c =
     (let n = (of_char c :: nat) in (32 \<le> n \<and> n < 127) \<or> (161 \<le> n \<and> n \<noteq> 173))"

definition repr_quote :: "string \<Rightarrow> char" where
  "repr_quote s = (if CHR 0x27 \<in> set s \<and> CHR 0x22 \<notin> set s then CHR 0x22 else CHR 0x27)"

definition repr_char :: "char \<Rightarrow> char \<Rightarrow> string" where
  "repr_char q c =
     (if c = q \<or> c = CHR 0x5C then [CHR 0x5C, c]
      else if c = CHR 0x09 then [CHR 0x5C, CHR ''t'']
      else if c = CHR 0x0A then [CHR 0x5C, CHR ''n'']
      else if c = CHR 0x0D then [CHR 0x5C, CHR ''r'']
      else if \<not> py_printable c then hex_escape c
      else [c])"

definition py_repr_str :: "string \<Rightarrow> string" where
  "py_repr_str s = (let q = repr_quote s in q # concat (map (repr_char q) s) @ [q])"

text \<open>\<^verbatim>\<open>sep.join(xs)\<close>, for strings over any type of characters.\<close>

fun join :: "'a list \<Rightarrow> 'a list list \<Rightarrow> 'a list" where
  "join sep [] = []"
| "join sep [x] = x"
| "join sep (x # y # ys) = x @ sep @ join sep (y # ys)"

text \<open>\<^verbatim>\<open>repr\<close> of a tuple of strings: \<^verbatim>\<open>()\<close>, \<^verbatim>\<open>('a',)\<close>, \<^verbatim>\<open>('a', 'b')\<close>.\<close>

definition py_repr_tuple :: "string list \<Rightarrow> string" where
  "py_repr_tuple xs =
     (case xs of
        [] \<Rightarrow> ''()''
      | [x] \<Rightarrow> ''('' @ py_repr_str x @ '',)''
      | _ \<Rightarrow> ''('' @ join '', '' (map py_repr_str xs) @ '')'')"

subsection \<open>The classes and the hub\<close>

text \<open>
  Loading reads the hub and the file system. That outside world is a state of an arbitrary
  type \<open>'w\<close>, which every operation that touches it takes and returns.
  \<^verbatim>\<open>get_hf_config_model_type\<close> (util/hf.py, outside the sources) reads the model type of a
  model from its configuration on the hub: a string, or an exception.

  A model class of the library (all outside the sources except \<^verbatim>\<open>LLaMACausalLM\<close>) is
  what the function uses of it: its name, whether it is a subclass of
  \<^verbatim>\<open>FromPretrainedHFModel\<close>, and its class method \<^verbatim>\<open>from_hf_hub\<close>, which builds a module of
  type \<open>'m\<close> and loads its parameters, or raises.
\<close>

type_synonym 'w get_model_type = "string \<Rightarrow> string \<Rightarrow> 'w \<Rightarrow> (py_error + string) \<times> 'w"

record ('dev, 'qc, 'm, 'w) model_class =
  cls_name :: string
  is_FromPretrainedHFModel :: bool
  cls_from_hf_hub ::
    "string \<Rightarrow> string \<Rightarrow> 'dev option \<Rightarrow> 'qc option \<Rightarrow> 'w \<Rightarrow> (py_error + 'm) \<times> 'w"

text \<open>
  The message of the \<^verbatim>\<open>ValueError\<close>:
  \<^verbatim>\<open>f"Unsupported model type `{model_type}` for {cls.__name__}. "\<close>
  \<^verbatim>\<open>f"Supported model types: {tuple(model_type_to_class_map.keys())}"\<close>.
  The backquote is \<open>CHR 0x60\<close>.
\<close>

definition unsupported_message :: "string \<Rightarrow> string \<Rightarrow> string list \<Rightarrow> string" where
  "unsupported_message model_type auto_name keys =
     ''Unsupported model type '' @ [CHR 0x60] @ model_type @ [CHR 0x60] @ '' for '' @ auto_name
       @ ''. '' @ ''Supported model types: '' @ py_repr_tuple keys"

text \<open>
  \<^verbatim>\<open>AutoModel._instantiate_module_from_hf_hub\<close>. The mapping from model types to classes is
  an association list in the order of the dictionary's keys; \<^verbatim>\<open>.get\<close> is \<open>map_of\<close>.
  \<open>auto_name\<close> is \<^verbatim>\<open>cls.__name__\<close> of the auto class the method is called on.
\<close>

definition instantiate_module_from_hf_hub ::
  "'w get_model_type \<Rightarrow> string \<Rightarrow> string \<Rightarrow> string \<Rightarrow> 'dev option \<Rightarrow> 'qc option
     \<Rightarrow> (string \<times> ('dev, 'qc, 'm, 'w) model_class) list \<Rightarrow> 'w \<Rightarrow> (py_error + 'm) \<times> 'w" where
  "instantiate_module_from_hf_hub get_hf_config_model_type auto_name name revision device
       quantization_config model_type_to_class_map w =
     (case get_hf_config_model_type name revision w of
        (Inl e, w') \<Rightarrow> (Inl e, w')
      | (Inr model_type, w') \<Rightarrow>
          (case map_of model_type_to_class_map model_type of
             None \<Rightarrow>
               (Inl (ValueError (unsupported_message model_type auto_name
                                   (map fst model_type_to_class_map))), w')
           | Some module_cls \<Rightarrow>
               if \<not> is_FromPretrainedHFModel module_cls then (Inl AssertionError, w')
               else cls_from_hf_hub module_cls name revision device quantization_config w'))"

text \<open>
  \<^verbatim>\<open>AutoDecoder\<close>: its class attribute \<^verbatim>\<open>_HF_MODEL_TYPE_TO_CURATED\<close>, over the three decoder
  classes it names, and \<^verbatim>\<open>from_hf_hub\<close>, which asserts that the module built is a
  \<^verbatim>\<open>DecoderModule\<close> (\<open>is_DecoderModule\<close>, a property of the module).
\<close>

definition AutoDecoder_HF_MODEL_TYPE_TO_CURATED ::
  "('dev, 'qc, 'm, 'w) model_class \<Rightarrow> ('dev, 'qc, 'm, 'w) model_class
     \<Rightarrow> ('dev, 'qc, 'm, 'w) model_class \<Rightarrow> (string \<times> ('dev, 'qc, 'm, 'w) model_class) list" where
  "AutoDecoder_HF_MODEL_TYPE_TO_CURATED GPTNeoXDecoder LLaMADecoder RefinedWebModelDecoder =
     [(''gpt_neox'', GPTNeoXDecoder),
      (''llama'', LLaMADecoder),
      (''RefinedWeb'', RefinedWebModelDecoder),
      (''RefinedWebModel'', RefinedWebModelDecoder)]"

definition AutoDecoder_from_hf_hub ::
  "'w get_model_type \<Rightarrow> ('m \<Rightarrow> bool) \<Rightarrow> (string \<times> ('dev, 'qc, 'm, 'w) model_class) list
     \<Rightarrow> string \<Rightarrow> string \<Rightarrow> 'dev option \<Rightarrow> 'qc option \<Rightarrow> 'w \<Rightarrow> (py_error + 'm) \<times> 'w" where
  "AutoDecoder_from_hf_hub get_hf_config_model_type is_DecoderModule HF_MODEL_TYPE_TO_CURATED
       name revision device quantization_config w =
     (case instantiate_module_from_hf_hub get_hf_config_model_type ''AutoDecoder'' name revision
             device quantization_config HF_MODEL_TYPE_TO_CURATED w of
        (Inl e, w') \<Rightarrow> (Inl e, w')
      | (Inr decoder, w') \<Rightarrow>
          if \<not> is_DecoderModule decoder then (Inl AssertionError, w') else (Inr decoder, w'))"

section \<open>LLaMA causal language model (models/llama/causal\_lm.py)\<close>

text \<open>
  A tensor of hidden states of shape (batch, seq\_len, width) is a list of batch rows,
  each a list of positions, each a vector. The entries are of any semiring \<open>'a\<close>: the
  properties below concern shapes and the flow of values, not floating point rounding.

  \<^verbatim>\<open>torch.nn.Linear\<close> without bias holds a weight matrix of out\_features rows of
  in\_features entries. It acts on the last dimension of a tensor, so on the vector of
  every position: a vector \<open>v\<close> of in\_features entries is mapped to the products of the
  rows of the weight with \<open>v\<close>; for a vector of another width torch raises
  \<open>RuntimeError\<close>. A record whose weight has a row of a width other than in\_features is
  no module that torch builds; the model raises for it as well, so that no product is
  ever taken over vectors of different widths.
\<close>

record 'a Linear =
  lin_in_features :: nat
  lin_weight :: "'a list list"

definition Linear_forward ::
  "('a::semiring_0) Linear \<Rightarrow> 'a list list list \<Rightarrow> py_error + 'a list list list" where
  "Linear_forward lin t =
     (if list_all (list_all (\<lambda>v. length v = lin_in_features lin)) t
         \<and> list_all (\<lambda>row. length row = lin_in_features lin) (lin_weight lin)
      then Inr (map (map (\<lambda>v. map (\<lambda>row. sum_list (map2 (*) row v)) (lin_weight lin))) t)
      else Inl RuntimeError)"

text \<open>
  A cache entry of one decoder layer: keys and values, each of shape
  (batch, heads, seen\_length, head\_dim).
\<close>

record 'a KeyValueCache =
  kv_key :: "'a list list list list"
  kv_value :: "'a list list list list"

text \<open>What \<^verbatim>\<open>forward\<close> reads of the decoder's output.\<close>

record 'a decoder_output =
  dec_cache :: "'a KeyValueCache list option"
  dec_embedding_layer :: "'a list list list"
  dec_all_hidden_layer_states :: "'a list list list list"
  dec_last_hidden_layer_states :: "'a list list list"

record 'a CausalLMOutputWithCache =
  lm_cache :: "'a KeyValueCache list option"
  lm_embedding_output :: "'a list list list"
  lm_layer_hidden_states :: "'a list list list list"
  logits :: "'a list list list"

text \<open>
  The decoder, as \<^verbatim>\<open>forward\<close> calls it: input ids, attention mask, cache, the flag
  \<^verbatim>\<open>store_cache\<close> and positions, in this order; it returns its output or raises.
\<close>

type_synonym 'a decoder_call =
  "int list list \<Rightarrow> bool list list option \<Rightarrow> 'a KeyValueCache list option \<Rightarrow> bool
     \<Rightarrow> int list list option \<Rightarrow> py_error + 'a decoder_output"

record 'a LLaMACausalLM =
  lm_decoder :: "'a decoder_call"
  lm_output_embeddings :: "'a Linear"

text \<open>
  \<^verbatim>\<open>LLaMACausalLM.forward\<close>: the decoder is called with the arguments as they came, the
  output embedding is applied to the hidden states of the decoder's last layer, and the
  decoder's cache, embeddings and hidden states are passed on. An exception of the
  decoder or of the output embedding leaves the method.
\<close>

definition LLaMACausalLM_forward ::
  "('a::semiring_0) LLaMACausalLM \<Rightarrow> int list list \<Rightarrow> bool list list option
     \<Rightarrow> 'a KeyValueCache list option \<Rightarrow> int list list option \<Rightarrow> bool
     \<Rightarrow> py_error + 'a CausalLMOutputWithCache" where
  "LLaMACausalLM_forward self input_ids attention_mask cache positions store_cache =
     (case lm_decoder self input_ids attention_mask cache store_cache positions of
        Inl e \<Rightarrow> Inl e
      | Inr decoder_out \<Rightarrow>
          (case Linear_forward (lm_output_embeddings self)
                  (dec_last_hidden_layer_states decoder_out) of
             Inl e \<Rightarrow> Inl e
           | Inr logits_tensor \<Rightarrow>
               Inr \<lparr> lm_cache = dec_cache decoder_out,
                     lm_embedding_output = dec_embedding_layer decoder_out,
                     lm_layer_hidden_states = dec_all_hidden_layer_states decoder_out,
                     logits = logits_tensor \<rparr>))"

subsection \<open>The decoder\<close>

text \<open>
  Modelled from the spec: \<^verbatim>\<open>LLaMADecoder\<close> (models/llama/decoder.py) is not among the
  sources. The spec describes a decoder as an embedding of the input ids followed by a
  stack of layers, with one cache entry per layer that a layer extends; a forward call
  receives the new tokens and the accumulated cache; and "if the supplied cache's batch
  dimension or layer count disagrees with the model's configuration, decoding fails with
  a configuration-mismatch error before any computation proceeds".

  The embedding module and the layers are parameters. A layer receives the hidden
  states, the attention mask, its cache entry if there is one, the positions and the
  flag, and returns new hidden states and its new cache entry, or raises. The layer count
  of the configuration is the number of layers; the batch dimension a cache entry has to
  agree with is that of the input ids of the call.
\<close>

type_synonym 'a decoder_layer =
  "'a list list list \<Rightarrow> bool list list option \<Rightarrow> 'a KeyValueCache option
     \<Rightarrow> int list list option \<Rightarrow> bool \<Rightarrow> py_error + ('a list list list \<times> 'a KeyValueCache)"

record 'a LLaMADecoder =
  dec_embeddings :: "int list list \<Rightarrow> 'a list list list"
  dec_layers :: "'a decoder_layer list"

definition cache_matches :: "'a LLaMADecoder \<Rightarrow> int list list \<Rightarrow> 'a KeyValueCache list \<Rightarrow> bool" where
  "cache_matches dec input_ids cache \<longleftrightarrow>
     length cache = length (dec_layers dec) \<and>
     list_all (\<lambda>kv. length (kv_key kv) = length input_ids \<and>
                    length (kv_value kv) = length input_ids) cache"

fun run_decoder_layers ::
  "('a decoder_layer \<times> 'a KeyValueCache option) list \<Rightarrow> 'a list list list
     \<Rightarrow> bool list list option \<Rightarrow> int list list option \<Rightarrow> bool
     \<Rightarrow> py_error + ('a list list list list \<times> 'a KeyValueCache list)" where
  "run_decoder_layers [] layer_output attention_mask positions store_cache = Inr ([], [])"
| "run_decoder_layers ((layer, layer_cache) # rest) layer_output attention_mask positions
       store_cache =
     (case layer layer_output attention_mask layer_cache positions store_cache of
        Inl e \<Rightarrow> Inl e
      | Inr (out, new_cache) \<Rightarrow>
          (case run_decoder_layers rest out attention_mask positions store_cache of
             Inl e \<Rightarrow> Inl e
           | Inr (outs, new_caches) \<Rightarrow> Inr (out # outs, new_cache # new_caches)))"

definition decode_layers ::
  "'a LLaMADecoder \<Rightarrow> int list list \<Rightarrow> bool list list option \<Rightarrow> 'a KeyValueCache list option
     \<Rightarrow> bool \<Rightarrow> int list list option \<Rightarrow> py_error + 'a decoder_output" where
  "decode_layers dec input_ids attention_mask cache store_cache positions =
     (let embeddings = dec_embeddings dec input_ids;
          layer_caches = (case cache of
                            None \<Rightarrow> replicate (length (dec_layers dec)) None
                          | Some c \<Rightarrow> map Some c)
      in case run_decoder_layers (zip (dec_layers dec) layer_caches) embeddings attention_mask
                positions store_cache of
           Inl e \<Rightarrow> Inl e
         | Inr (outs, new_caches) \<Rightarrow>
             Inr \<lparr> dec_cache = (if store_cache then Some new_caches else None),
                   dec_embedding_layer = embeddings,
                   dec_all_hidden_layer_states = embeddings # outs,
                   dec_last_hidden_layer_states = last (embeddings # outs) \<rparr>)"

definition LLaMADecoder_forward :: "'a LLaMADecoder \<Rightarrow> 'a decoder_call" where
  "LLaMADecoder_forward dec input_ids attention_mask cache store_cache positions =
     (case cache of
        None \<Rightarrow> decode_layers dec input_ids attention_mask None store_cache positions
      | Some c \<Rightarrow>
          if \<not> cache_matches dec input_ids c then Inl ConfigurationError
          else decode_layers dec input_ids attention_mask (Some c) store_cache positions)"

section \<open>Batches of pieces (\<^verbatim>\<open>PiecesWithIds\<close>)\<close>

text \<open>
  Modelled from the spec: the class \<^verbatim>\<open>PiecesWithIds\<close> (tokenization/tokenizer.py) is not
  among the sources; the sources hold its use in
  tests/tokenization/test\_bert\_tokenizer.py. The spec describes it as the ids of every
  sequence of a batch, the piece strings of every sequence and length metadata, which
  "produces a padded tensor (mapping: batch index x position -> id, right-padded with a
  configurable pad id) and a boolean attention mask (same shape, True where real tokens
  exist)"; the padded tensor has as many columns as the longest sequence has ids.
  In the test the length metadata \<^verbatim>\<open>lens\<close> holds, for every sequence, the number of pieces
  of each of its tokens.
\<close>

record PiecesWithIds =
  pw_ids :: "int list list"
  pw_pieces :: "string list list"
  pw_lens :: "nat list list"

text \<open>The length of the longest sequence of a batch (0 for the empty batch).\<close>

definition max_len :: "int list list \<Rightarrow> nat" where
  "max_len seqs = foldr max (map length seqs) 0"

definition PiecesWithIds_padded_tensor :: "PiecesWithIds \<Rightarrow> int \<Rightarrow> int list list" where
  "PiecesWithIds_padded_tensor p padding_id =
     map (\<lambda>seq. seq @ replicate (max_len (pw_ids p) - length seq) padding_id) (pw_ids p)"

definition PiecesWithIds_attention_mask :: "PiecesWithIds \<Rightarrow> bool list list" where
  "PiecesWithIds_attention_mask p =
     map (\<lambda>seq. map (\<lambda>j. j < length seq) [0..<max_len (pw_ids p)]) (pw_ids p)"

text \<open>
  The encoding that \<^verbatim>\<open>_check_toy_tokenizer\<close> of test\_bert\_tokenizer.py expects of the toy
  tokenizer for its two sample texts.
\<close>

definition toy_encoding :: PiecesWithIds where
  "toy_encoding =
     \<lparr> pw_ids =
         [[2, 41, 818, 61, 67, 193, 88, 204, 61, 251, 909, 682, 102, 95, 17, 3],
          [2, 824, 98, 189, 311, 417, 65, 155, 503, 99, 1, 416, 117, 88, 15, 844, 91, 100,
           163, 183, 5, 3]],
       pw_pieces =
         [[''[CLS]'', ''I'', ''saw'', ''a'', ''g'', ''##ir'', ''##l'', ''with'', ''a'', ''te'',
           ''##les'', ''##co'', ''##p'', ''##e'', ''.'', ''[SEP]''],
          [''[CLS]'', ''To'', ''##d'', ''##ay'', ''we'', ''will'', ''e'', ''##at'', ''po'', ''##k'',
           ''[UNK]'', ''bo'', ''##w'', ''##l'', '','', ''lo'', ''##t'', ''##s'', ''of'', ''it'',
           ''!'', ''[SEP]'']],
       pw_lens =
         [[1, 1, 1, 1, 3, 1, 1, 5, 1, 1],
          [1, 3, 1, 1, 2, 3, 3, 1, 3, 1, 1, 1, 1]] \<rparr>"

section \<open>BERT pre-encoder (\<^verbatim>\<open>BertPreEncoder\<close>)\<close>

text \<open>
  Modelled from the spec: the class \<^verbatim>\<open>BertPreEncoder\<close> (tokenization/bert\_tokenizer.py) is
  not among the sources; the sources hold \<^verbatim>\<open>test_bert_tokenizer_preencoder\<close>, which builds
  it from the flags \<^verbatim>\<open>lowercase\<close> and \<^verbatim>\<open>strip_accents\<close> and applies it to a list of
  strings. The spec describes the pre-encoder as a pure function from a sequence of
  strings to a sequence of normalized strings of equal length, which lowercases, strips
  diacritics ("combining marks stripped when strip\_accents=True") and inserts whitespace
  around punctuation ("every hyphen gets surrounded by single spaces unless already
  isolated").

  A Python \<^verbatim>\<open>str\<close> is the list of its code points. The words of a text are what single
  spaces (code point 32) separate. A word is lowercased and stripped of its accents as
  the flags say, then cut into tokens: every punctuation character is a token of its own,
  every maximal run of other characters is a token. The tokens of all words, in order,
  are joined by single spaces.

  What Python's \<^verbatim>\<open>str.lower\<close> and \<^verbatim>\<open>unicodedata\<close> give is a parameter: lowercasing,
  normalization to the decomposed form NFD, whether a code point is a nonspacing mark
  (category Mn), whether it is punctuation.
\<close>

record unicode_data =
  ud_lower :: "nat list \<Rightarrow> nat list"
  ud_normalize_NFD :: "nat list \<Rightarrow> nat list"
  ud_is_Mn :: "nat \<Rightarrow> bool"
  ud_is_punctuation :: "nat \<Rightarrow> bool"

record BertPreEncoder =
  pre_lowercase :: bool
  pre_strip_accents :: bool

text \<open>\<^verbatim>\<open>s.split(sep)\<close> for a separator of one character.\<close>

fun split_on :: "'a \<Rightarrow> 'a list \<Rightarrow> 'a list list" where
  "split_on sep [] = [[]]"
| "split_on sep (c # cs) =
     (if c = sep then [] # split_on sep cs
      else (case split_on sep cs of
              w # ws \<Rightarrow> (c # w) # ws
            | [] \<Rightarrow> [[c]]))"

fun split_token_on_punctuation :: "(nat \<Rightarrow> bool) \<Rightarrow> nat list \<Rightarrow> nat list list" where
  "split_token_on_punctuation is_punct [] = []"
| "split_token_on_punctuation is_punct [c] = [[c]]"
| "split_token_on_punctuation is_punct (c # d # cs) =
     (if is_punct c \<or> is_punct d then [c] # split_token_on_punctuation is_punct (d # cs)
      else (case split_token_on_punctuation is_punct (d # cs) of
              t # ts \<Rightarrow> (c # t) # ts
            | [] \<Rightarrow> [[c]]))"

definition normalize_word :: "unicode_data \<Rightarrow> BertPreEncoder \<Rightarrow> nat list \<Rightarrow> nat list" where
  "normalize_word u enc word =
     (let word = (if pre_lowercase enc then ud_lower u word else word)
      in if pre_strip_accents enc
         then filter (\<lambda>c. \<not> ud_is_Mn u c) (ud_normalize_NFD u word)
         else word)"

definition pre_encode_text :: "unicode_data \<Rightarrow> BertPreEncoder \<Rightarrow> nat list \<Rightarrow> nat list" where
  "pre_encode_text u enc text =
     join [32]
       (concat (map (\<lambda>word. split_token_on_punctuation (ud_is_punctuation u)
                               (normalize_word u enc word))
                    (split_on 32 text)))"

definition BertPreEncoder_call ::
  "unicode_data \<Rightarrow> BertPreEncoder \<Rightarrow> nat list list \<Rightarrow> nat list list" where
  "BertPreEncoder_call u enc texts = map (pre_encode_text u enc) texts"

text \<open>The code points of a string of ASCII characters.\<close>

definition codepoints :: "string \<Rightarrow> nat list" where
  "codepoints s = map of_char s"

text \<open>
  The part of the Unicode data that the strings of \<^verbatim>\<open>test_bert_tokenizer_preencoder\<close> need:
  the ASCII punctuation; the combining diacritical marks U+0300 to U+036F, which are
  nonspacing marks; the decomposition of U+00F6 (o with diaeresis) into o and U+0308.
  Lowercasing is that of the ASCII letters.
\<close>

definition test_unicode_data :: unicode_data where
  "test_unicode_data =
     \<lparr> ud_lower = map (\<lambda>c. if 65 \<le> c \<and> c \<le> 90 then c + 32 else c),
       ud_normalize_NFD = (\<lambda>w. concat (map (\<lambda>c. if c = 246 then [111, 776] else [c]) w)),
       ud_is_Mn = (\<lambda>c. 768 \<le> c \<and> c \<le> 879),
       ud_is_punctuation = (\<lambda>c. (33 \<le> c \<and> c \<le> 47) \<or> (58 \<le> c \<and> c \<le> 64)
                                \<or> (91 \<le> c \<and> c \<le> 96) \<or> (123 \<le> c \<and> c \<le> 126)) \<rparr>"

section \<open>Theorems\<close>

subsection \<open>RoBERTa tokenizer construction\<close>

text \<open>
  C9. When the begin-of-sequence or the end-of-sequence piece is not in the vocabulary,
  the constructor raises \<open>ValueError\<close>, the message quotes a requested piece that is
  missing (the begin-of-sequence piece when both are), and there is no tokenizer. When
  both are in the vocabulary, the constructor returns a tokenizer whose pre-decoder and
  post-encoder hold the ids the vocabulary gives the two pieces.
\<close>

theorem RobertaTokenizer_init_missing_or_resolved:
  "(piece_id proc bos = None \<or> piece_id proc eos = None \<longrightarrow>
      (\<exists>piece. (piece = bos \<or> piece = eos) \<and> piece_id proc piece = None \<and>
         RobertaTokenizer_init proc bos eos =
           Inl (ValueError (''RoBERTa piece encoder vocabulary doesn'' @ [CHR 0x27] @
                ''t contain '' @ [CHR 0x27] @ piece @ [CHR 0x27] @ '' piece''))))
   \<and> (\<forall>b e. piece_id proc bos = Some b \<and> piece_id proc eos = Some e \<longrightarrow>
         RobertaTokenizer_init proc bos eos =
           Inr \<lparr> processor = proc,
                 pre_decoder = \<lparr> pd_bos_id = b, pd_eos_id = e \<rparr>,
                 post_encoder = \<lparr> pe_bos_piece = bos, pe_eos_piece = eos,
                                  pe_bos_id = b, pe_eos_id = e \<rparr> \<rparr>)"
proof (intro conjI impI allI)
  assume miss: "piece_id proc bos = None \<or> piece_id proc eos = None"
  show "\<exists>piece. (piece = bos \<or> piece = eos) \<and> piece_id proc piece = None \<and>
         RobertaTokenizer_init proc bos eos =
           Inl (ValueError (''RoBERTa piece encoder vocabulary doesn'' @ [CHR 0x27] @
                ''t contain '' @ [CHR 0x27] @ piece @ [CHR 0x27] @ '' piece''))"
  proof (cases "piece_id proc bos")
    case None
    then have "RobertaTokenizer_init proc bos eos = Inl (ValueError (missing_piece_message bos))"
      by (simp add: RobertaTokenizer_init_def get_piece_id_or_fail_def)
    with None show ?thesis
      unfolding missing_piece_message_def by blast
  next
    case (Some b)
    with miss have e: "piece_id proc eos = None" by simp
    with Some have "RobertaTokenizer_init proc bos eos = Inl (ValueError (missing_piece_message eos))"
      by (simp add: RobertaTokenizer_init_def get_piece_id_or_fail_def)
    with e show ?thesis
      unfolding missing_piece_message_def by blast
  qed
next
  fix b e
  assume "piece_id proc bos = Some b \<and> piece_id proc eos = Some e"
  then show "RobertaTokenizer_init proc bos eos =
           Inr \<lparr> processor = proc,
                 pre_decoder = \<lparr> pd_bos_id = b, pd_eos_id = e \<rparr>,
                 post_encoder = \<lparr> pe_bos_piece = bos, pe_eos_piece = eos,
                                  pe_bos_id = b, pe_eos_id = e \<rparr> \<rparr>"
    by (simp add: RobertaTokenizer_init_def get_piece_id_or_fail_def)
qed

theorem RobertaTokenizer_init_witness:
  "RobertaTokenizer_init \<lparr> piece_id = map_of [(''<s>'', 0), (''</s>'', 2)] \<rparr> ''<s>'' ''</s>'' =
     Inr \<lparr> processor = \<lparr> piece_id = map_of [(''<s>'', 0), (''</s>'', 2)] \<rparr>,
           pre_decoder = \<lparr> pd_bos_id = 0, pd_eos_id = 2 \<rparr>,
           post_encoder = \<lparr> pe_bos_piece = ''<s>'', pe_eos_piece = ''</s>'',
                            pe_bos_id = 0, pe_eos_id = 2 \<rparr> \<rparr>
   \<and> RobertaTokenizer_init \<lparr> piece_id = map_of [(''<s>'', 0)] \<rparr> ''<s>'' ''</s>'' =
     Inl (ValueError (''RoBERTa piece encoder vocabulary doesn'' @ [CHR 0x27] @
                ''t contain '' @ [CHR 0x27] @ ''</s>'' @ [CHR 0x27] @ '' piece''))"
  using RobertaTokenizer_init_missing_or_resolved
          [of "\<lparr> piece_id = map_of [(''<s>'', 0), (''</s>'', 2)] \<rparr>" "''<s>''" "''</s>''"]
        RobertaTokenizer_init_missing_or_resolved
          [of "\<lparr> piece_id = map_of [(''<s>'', 0)] \<rparr>" "''<s>''" "''</s>''"]
  by auto

subsection \<open>Position ids\<close>

lemma length_cumsum_from: "length (cumsum_from acc vs) = length vs"
  by (induction vs arbitrary: acc) auto

lemma cumsum_from_nth:
  "j < length vs \<Longrightarrow> cumsum_from acc vs ! j = acc + sum_list (take (Suc j) vs)"
proof (induction vs arbitrary: acc j)
  case Nil
  then show ?case by simp
next
  case (Cons v vs)
  show ?case
  proof (cases j)
    case 0
    then show ?thesis by simp
  next
    case (Suc k)
    with Cons.prems have "k < length vs" by simp
    from Cons.IH [OF this, of "acc + v"] Suc show ?thesis by simp
  qed
qed

lemma sum_list_indicator:
  "sum_list (map (\<lambda>v. if v \<noteq> p then 1 else 0) xs) = int (length (filter (\<lambda>v. v \<noteq> p) xs))"
  by (induction xs) auto

lemma pos_ids_row:
  "pos_ids p x = map (\<lambda>row. map (\<lambda>v. v + p)
       (map2 (*) (cumsum_from 0 (map (\<lambda>v. if v \<noteq> p then 1 else 0) row))
                 (map (\<lambda>v. if v \<noteq> p then 1 else 0) row))) x"
  by (induction x)
     (simp_all add: pos_ids_def ne_int_def cumsum_dim1_def tensor_mul_def tensor_add_scalar_def
        Let_def)

lemma pos_ids_entry:
  assumes i: "i < length x" and j: "j < length (x ! i)"
  shows "pos_ids p x ! i ! j =
           (if x ! i ! j = p then p else int (non_padding_count p (x ! i) (Suc j)) + p)"
proof -
  let ?ind = "\<lambda>v::int. if v \<noteq> p then (1::int) else 0"
  let ?row = "x ! i"
  have "pos_ids p x ! i ! j =
          cumsum_from 0 (map ?ind ?row) ! j * (map ?ind ?row ! j) + p"
    using i j by (simp add: pos_ids_row length_cumsum_from)
  also have "cumsum_from 0 (map ?ind ?row) ! j = sum_list (take (Suc j) (map ?ind ?row))"
    using j by (simp add: cumsum_from_nth)
  also have "sum_list (take (Suc j) (map ?ind ?row)) = int (non_padding_count p ?row (Suc j))"
    unfolding non_padding_count_def take_map by (rule sum_list_indicator)
  finally show ?thesis using j by simp
qed

lemma pos_ids_shape:
  "length (pos_ids p x) = length x \<and> (\<forall>i<length x. length (pos_ids p x ! i) = length (x ! i))"
  by (simp add: pos_ids_row length_cumsum_from)

text \<open>
  C8. With learned position embeddings, the embedding module is applied to position ids
  of the shape of the input in which a padding position holds the padding index and any
  other position holds the number of non-padding tokens of its row up to and including
  that position, plus the padding index. The raw index of the position does not occur.
\<close>

theorem get_pos_embeddings_cumulative_count:
  "te_learnable_pos_embeddings enc \<longrightarrow>
     get_pos_embeddings enc x = te_pos_embeddings enc (pos_ids (te_padding_idx enc) x) \<and>
     length (pos_ids (te_padding_idx enc) x) = length x \<and>
     (\<forall>i<length x.
        length (pos_ids (te_padding_idx enc) x ! i) = length (x ! i) \<and>
        (\<forall>j<length (x ! i).
           pos_ids (te_padding_idx enc) x ! i ! j =
             (if x ! i ! j = te_padding_idx enc then te_padding_idx enc
              else int (non_padding_count (te_padding_idx enc) (x ! i) (Suc j))
                   + te_padding_idx enc)))"
  using pos_ids_entry [of _ x _ "te_padding_idx enc"] pos_ids_shape [of "te_padding_idx enc" x]
  by (simp add: get_pos_embeddings_def)

theorem get_pos_embeddings_witness:
  "get_pos_embeddings
     \<lparr> te_padding_idx = 1, te_learnable_pos_embeddings = True, te_pos_embeddings = (\<lambda>t. t) \<rparr>
     [[1, 1, 5, 7], [4, 5, 6, 1]] = [[1, 1, 2, 3], [2, 3, 4, 1]]"
proof -
  let ?enc = "\<lparr> te_padding_idx = 1, te_learnable_pos_embeddings = True,
               te_pos_embeddings = (\<lambda>t::int list list. t) \<rparr>"
  have "get_pos_embeddings ?enc [[1, 1, 5, 7], [4, 5, 6, 1]]
          = pos_ids 1 [[1, 1, 5, 7], [4, 5, 6, 1]]"
    using get_pos_embeddings_cumulative_count [of ?enc "[[1, 1, 5, 7], [4, 5, 6, 1]]"]
    by simp
  also have "\<dots> = [[1, 1, 2, 3], [2, 3, 4, 1]]"
    by (simp add: pos_ids_def ne_int_def cumsum_dim1_def tensor_mul_def tensor_add_scalar_def)
  finally show ?thesis .
qed

subsection \<open>RoBERTa encoder and its quantized variant\<close>

lemma length_run_layers: "length (run_layers fs h m) = length fs"
  by (induction fs arbitrary: h) (simp_all add: Let_def)

lemma run_layers_nth:
  "i < length fs \<Longrightarrow>
     run_layers fs h m ! i = (fs ! i) (if i = 0 then h else run_layers fs h m ! (i - 1)) m"
proof (induction fs arbitrary: h i)
  case Nil
  then show ?case by simp
next
  case (Cons f fs)
  show ?case
  proof (cases i)
    case 0
    then show ?thesis by (simp add: Let_def)
  next
    case (Suc k)
    with Cons.prems have k: "k < length fs" by simp
    from Cons.IH [OF k, of "f h m"] Suc show ?thesis
      by (cases k) (simp_all add: Let_def)
  qed
qed

lemma run_layers_eq_iff:
  "run_layers fs h m = run_layers gs h m' \<longleftrightarrow>
     length fs = length gs
     \<and> (\<forall>i<length fs.
           (fs ! i) (if i = 0 then h else run_layers fs h m ! (i - 1)) m
             = (gs ! i) (if i = 0 then h else run_layers fs h m ! (i - 1)) m')"
proof
  assume eq: "run_layers fs h m = run_layers gs h m'"
  then have len: "length fs = length gs"
    using length_run_layers [of fs h m] length_run_layers [of gs h m'] by simp
  have "(fs ! i) (if i = 0 then h else run_layers fs h m ! (i - 1)) m
          = (gs ! i) (if i = 0 then h else run_layers fs h m ! (i - 1)) m'"
    if "i < length fs" for i
  proof -
    from that len have ig: "i < length gs" by simp
    have g0: "(gs ! i) (if i = 0 then h else run_layers gs h m' ! (i - 1)) m'
            = run_layers gs h m' ! i"
      using run_layers_nth [OF ig, of h m'] by simp
    have g: "(gs ! i) (if i = 0 then h else run_layers fs h m ! (i - 1)) m'
                    = run_layers fs h m ! i"
      unfolding eq by (rule g0)
    have f: "(fs ! i) (if i = 0 then h else run_layers fs h m ! (i - 1)) m
               = run_layers fs h m ! i"
      using run_layers_nth [OF that, of h m] by simp
    from f g show ?thesis by simp
  qed
  with len show "length fs = length gs
     \<and> (\<forall>i<length fs.
           (fs ! i) (if i = 0 then h else run_layers fs h m ! (i - 1)) m
             = (gs ! i) (if i = 0 then h else run_layers fs h m ! (i - 1)) m')"
    by blast
next
  assume a: "length fs = length gs
     \<and> (\<forall>i<length fs.
           (fs ! i) (if i = 0 then h else run_layers fs h m ! (i - 1)) m
             = (gs ! i) (if i = 0 then h else run_layers fs h m ! (i - 1)) m')"
  then have len: "length fs = length gs" by simp
  from a have ag: "(fs ! i) (if i = 0 then h else run_layers fs h m ! (i - 1)) m
             = (gs ! i) (if i = 0 then h else run_layers fs h m ! (i - 1)) m'"
    if "i < length fs" for i
    using that by blast
  have "run_layers fs h m ! i = run_layers gs h m' ! i" if "i < length fs" for i
    using that
  proof (induction i)
    case 0
    from ag [OF 0] have "(fs ! 0) h m = (gs ! 0) h m'" by simp
    moreover from 0 len have "0 < length gs" by simp
    ultimately show ?case
      using run_layers_nth [OF 0, of h m] run_layers_nth [of 0 gs h m'] by simp
  next
    case (Suc k)
    then have k: "run_layers fs h m ! k = run_layers gs h m' ! k" by simp
    from Suc.prems len have sg: "Suc k < length gs" by simp
    from ag [OF Suc.prems]
    have "(fs ! Suc k) (run_layers fs h m ! k) m = (gs ! Suc k) (run_layers fs h m ! k) m'"
      by simp
    with k show ?case
      using run_layers_nth [OF Suc.prems, of h m] run_layers_nth [OF sg, of h m'] by simp
  qed
  then show "run_layers fs h m = run_layers gs h m'"
    using len by (intro nth_equalityI) (simp_all add: length_run_layers)
qed

text \<open>
  C10. Write \<open>Me\<close> and \<open>Mq\<close> for the attention masks the two encoders work with: the mask
  supplied, or, when none is supplied, the tensor of the shape of the input ids that
  holds 0 where the id is the padding index of the encoder and 1 elsewhere. Each forward
  method returns the embeddings of its embedding module and, for every layer, the
  result of that layer on the output of the layer before it (the embeddings for the
  first) and the mask. The two outputs are equal exactly when the embeddings are equal
  at this input, the encoders have equally many layers and every layer and its quantized
  counterpart agree on the hidden state that reaches them in this call. When no mask is
  supplied and the padding indices are equal, the two derived masks are equal.
\<close>

theorem forward_quantized_equal:
  assumes "Me = (case attention_mask of
                   None \<Rightarrow> map (map (\<lambda>v. if v \<noteq> re_padding_idx enc then 1 else 0)) input_ids
                 | Some m \<Rightarrow> m)"
    and "Mq = (case attention_mask of
                 None \<Rightarrow> map (map (\<lambda>v. if v \<noteq> qre_padding_idx qenc then 1 else 0)) input_ids
               | Some m \<Rightarrow> m)"
    and "E = re_embeddings enc input_ids token_type_ids None"
    and "Q = qre_embeddings qenc input_ids token_type_ids None"
    and "Fe = RobertaEncoder_forward enc input_ids attention_mask token_type_ids"
    and "Fq = QuantizedRobertaEncoder_forward qenc input_ids attention_mask token_type_ids"
  shows
    "embedding_output Fe = E
     \<and> length (layer_hidden_states Fe) = length (re_layers enc)
     \<and> (\<forall>i<length (re_layers enc).
           layer_hidden_states Fe ! i
             = (re_layers enc ! i) (if i = 0 then E else layer_hidden_states Fe ! (i - 1)) Me)
     \<and> embedding_output Fq = Q
     \<and> length (layer_hidden_states Fq) = length (qre_layers qenc)
     \<and> (\<forall>i<length (qre_layers qenc).
           layer_hidden_states Fq ! i
             = (qre_layers qenc ! i) (if i = 0 then Q else layer_hidden_states Fq ! (i - 1)) Mq)
     \<and> (Fe = Fq \<longleftrightarrow>
          E = Q \<and> length (re_layers enc) = length (qre_layers qenc)
          \<and> (\<forall>i<length (re_layers enc).
                (re_layers enc ! i) (if i = 0 then E else layer_hidden_states Fe ! (i - 1)) Me
                  = (qre_layers qenc ! i)
                      (if i = 0 then E else layer_hidden_states Fe ! (i - 1)) Mq))
     \<and> (attention_mask = None \<and> re_padding_idx enc = qre_padding_idx qenc \<longrightarrow>
          Me = Mq \<and> length Me = length input_ids
          \<and> (\<forall>i<length input_ids.
                length (Me ! i) = length (input_ids ! i)
                \<and> (\<forall>j<length (input_ids ! i).
                      Me ! i ! j = (if input_ids ! i ! j = re_padding_idx enc then 0 else 1))))"
proof -
  have Fe: "Fe = \<lparr> embedding_output = E, layer_hidden_states = run_layers (re_layers enc) E Me \<rparr>"
    using assms(1,3,5)
    by (simp add: RobertaEncoder_forward_def RobertaEncoder_create_attention_mask_def ne_int_def
        Let_def split: option.splits)
  have Fq: "Fq = \<lparr> embedding_output = Q, layer_hidden_states = run_layers (qre_layers qenc) Q Mq \<rparr>"
    using assms(2,4,6)
    by (simp add: QuantizedRobertaEncoder_forward_def
        QuantizedRobertaEncoder_create_attention_mask_def ne_int_def Let_def
        split: option.splits)
  have 1: "embedding_output Fe = E" "length (layer_hidden_states Fe) = length (re_layers enc)"
    using Fe by (simp_all add: length_run_layers)
  have 2: "\<forall>i<length (re_layers enc).
           layer_hidden_states Fe ! i
             = (re_layers enc ! i) (if i = 0 then E else layer_hidden_states Fe ! (i - 1)) Me"
    using Fe run_layers_nth [of _ "re_layers enc" E Me] by simp
  have 3: "embedding_output Fq = Q" "length (layer_hidden_states Fq) = length (qre_layers qenc)"
    using Fq by (simp_all add: length_run_layers)
  have 4: "\<forall>i<length (qre_layers qenc).
           layer_hidden_states Fq ! i
             = (qre_layers qenc ! i) (if i = 0 then Q else layer_hidden_states Fq ! (i - 1)) Mq"
    using Fq run_layers_nth [of _ "qre_layers qenc" Q Mq] by simp
  have 5: "Fe = Fq \<longleftrightarrow>
          E = Q \<and> length (re_layers enc) = length (qre_layers qenc)
          \<and> (\<forall>i<length (re_layers enc).
                (re_layers enc ! i) (if i = 0 then E else layer_hidden_states Fe ! (i - 1)) Me
                  = (qre_layers qenc ! i)
                      (if i = 0 then E else layer_hidden_states Fe ! (i - 1)) Mq)"
  proof (cases "E = Q")
    case True
    have "Fe = Fq \<longleftrightarrow> run_layers (re_layers enc) E Me = run_layers (qre_layers qenc) E Mq"
      using Fe Fq True by simp
    also have "\<dots> \<longleftrightarrow> length (re_layers enc) = length (qre_layers qenc)
          \<and> (\<forall>i<length (re_layers enc).
                (re_layers enc ! i)
                    (if i = 0 then E else run_layers (re_layers enc) E Me ! (i - 1)) Me
                  = (qre_layers qenc ! i)
                      (if i = 0 then E else run_layers (re_layers enc) E Me ! (i - 1)) Mq)"
      by (rule run_layers_eq_iff)
    finally show ?thesis using True Fe by simp
  next
    case False
    with Fe Fq show ?thesis by auto
  qed
  have 6: "attention_mask = None \<and> re_padding_idx enc = qre_padding_idx qenc \<longrightarrow>
          Me = Mq \<and> length Me = length input_ids
          \<and> (\<forall>i<length input_ids.
                length (Me ! i) = length (input_ids ! i)
                \<and> (\<forall>j<length (input_ids ! i).
                      Me ! i ! j = (if input_ids ! i ! j = re_padding_idx enc then 0 else 1)))"
    using assms(1,2) by simp
  from 1 2 3 4 5 6 show ?thesis by blast
qed

theorem forward_quantized_equal_witness:
  "RobertaEncoder_forward
     \<lparr> re_embeddings = (\<lambda>ids tt pos. map sum_list ids), re_padding_idx = 1, re_max_seq_len = 8,
       re_layers = [\<lambda>h m. map2 (+) h (map sum_list m), \<lambda>h m. map (\<lambda>v. 2 * v) h] \<rparr>
     [[5, 7, 1], [4, 1, 1]] None None
   = QuantizedRobertaEncoder_forward
     \<lparr> qre_embeddings = (\<lambda>ids tt pos. map sum_list ids), qre_padding_idx = 1, qre_max_seq_len = 8,
       qre_layers = [\<lambda>h m. map2 (+) (map sum_list m) h,
                     \<lambda>h m. if h = [] then [7] else map (\<lambda>v. v + v) h] \<rparr>
     [[5, 7, 1], [4, 1, 1]] None None
   \<and> RobertaEncoder_forward
     \<lparr> re_embeddings = (\<lambda>ids tt pos. map sum_list ids), re_padding_idx = 1, re_max_seq_len = 8,
       re_layers = [\<lambda>h m. map2 (+) h (map sum_list m), \<lambda>h m. map (\<lambda>v. 2 * v) h] \<rparr>
     [[5, 7, 1], [4, 1, 1]] None None
   = \<lparr> embedding_output = [13, 6], layer_hidden_states = [[15, 7], [30, 14]] \<rparr>"
proof -
  let ?enc = "\<lparr> re_embeddings = (\<lambda>ids (tt::int list list option) (pos::int list list option).
                  map sum_list ids), re_padding_idx = 1, re_max_seq_len = 8,
       re_layers = [\<lambda>h m. map2 (+) h (map sum_list m), \<lambda>h m. map (\<lambda>v. 2 * v) h] \<rparr>"
  let ?qenc = "\<lparr> qre_embeddings = (\<lambda>ids (tt::int list list option) (pos::int list list option).
                  map sum_list ids), qre_padding_idx = 1, qre_max_seq_len = 8,
       qre_layers = [\<lambda>h m. map2 (+) (map sum_list m) h,
                     \<lambda>h m. if h = [] then [7] else map (\<lambda>v. v + v) h] \<rparr>"
  let ?Fe = "RobertaEncoder_forward ?enc [[5, 7, 1], [4, 1, 1]] None None"
  let ?Fq = "QuantizedRobertaEncoder_forward ?qenc [[5, 7, 1], [4, 1, 1]] None None"
  have fe: "?Fe = \<lparr> embedding_output = [13, 6], layer_hidden_states = [[15, 7], [30, 14]] \<rparr>"
    by (simp add: RobertaEncoder_forward_def RobertaEncoder_create_attention_mask_def ne_int_def)
  note t = forward_quantized_equal [OF refl refl refl refl refl refl, where enc = ?enc
      and qenc = ?qenc and input_ids = "[[5, 7, 1], [4, 1, 1]]" and attention_mask = None
      and token_type_ids = None]
  then have iff: "?Fe = ?Fq \<longleftrightarrow>
       re_embeddings ?enc [[5, 7, 1], [4, 1, 1]] None None
         = qre_embeddings ?qenc [[5, 7, 1], [4, 1, 1]] None None
       \<and> length (re_layers ?enc) = length (qre_layers ?qenc)
       \<and> (\<forall>i<length (re_layers ?enc).
             (re_layers ?enc ! i)
                 (if i = 0 then re_embeddings ?enc [[5, 7, 1], [4, 1, 1]] None None
                  else layer_hidden_states ?Fe ! (i - 1))
                 (case None of
                    None \<Rightarrow> map (map (\<lambda>v. if v \<noteq> re_padding_idx ?enc then 1 else 0))
                              [[5, 7, 1], [4, 1, 1]]
                  | Some m \<Rightarrow> m)
               = (qre_layers ?qenc ! i)
                 (if i = 0 then re_embeddings ?enc [[5, 7, 1], [4, 1, 1]] None None
                  else layer_hidden_states ?Fe ! (i - 1))
                 (case None of
                    None \<Rightarrow> map (map (\<lambda>v. if v \<noteq> qre_padding_idx ?qenc then 1 else 0))
                              [[5, 7, 1], [4, 1, 1]]
                  | Some m \<Rightarrow> m))"
    (is "_ \<longleftrightarrow> ?agree")
    by blast
  have agree: ?agree
    by (simp add: fe less_Suc_eq all_conj_distrib)
  from iff agree have "?Fe = ?Fq" by (rule iffD2)
  with fe show ?thesis by simp
qed

subsection \<open>Loading a module by its model type\<close>

lemma sublist_join:
  "x \<in> set xs \<Longrightarrow> sublist x (join sep xs)"
proof (induction sep xs rule: join.induct)
  case (1 sep)
  then show ?case by simp
next
  case (2 sep y)
  then show ?case by simp
next
  case (3 sep y z zs)
  show ?case
  proof (cases "x = y")
    case True
    then show ?thesis by simp
  next
    case False
    with 3 have "sublist x (join sep (z # zs))" by simp
    then obtain ps ss where "join sep (z # zs) = ps @ x @ ss"
      by (auto simp: sublist_def)
    then have "join sep (y # z # zs) = (y @ sep @ ps) @ x @ ss" by simp
    then show ?thesis unfolding sublist_def by blast
  qed
qed

lemma sublist_py_repr_tuple:
  assumes "k \<in> set keys"
  shows "sublist (py_repr_str k) (py_repr_tuple keys)"
proof -
  have j: "sublist (py_repr_str k) (join '', '' (map py_repr_str keys))"
    using assms by (intro sublist_join) simp
  show ?thesis
  proof (cases keys)
    case Nil
    with assms show ?thesis by simp
  next
    case (Cons a as)
    show ?thesis
    proof (cases as)
      case Nil
      with \<open>keys = a # as\<close> assms
      have "py_repr_tuple keys = ''('' @ py_repr_str k @ '',)''"
        by (simp add: py_repr_tuple_def)
      then show ?thesis unfolding sublist_def by blast
    next
      case (Cons b bs)
      with \<open>keys = a # as\<close> have "py_repr_tuple keys = ''('' @ join '', '' (map py_repr_str keys) @ '')''"
        by (simp add: py_repr_tuple_def)
      moreover from j obtain ps ss where "join '', '' (map py_repr_str keys) = ps @ py_repr_str k @ ss"
        by (auto simp: sublist_def)
      ultimately have "py_repr_tuple keys = (''('' @ ps) @ py_repr_str k @ (ss @ '')'')"
        by simp
      then show ?thesis unfolding sublist_def by blast
    qed
  qed
qed

lemma unsupported_message_names:
  "sublist model_type (unsupported_message model_type auto_name keys)"
proof -
  have "unsupported_message model_type auto_name keys =
          (''Unsupported model type '' @ [CHR 0x60]) @ model_type @
          ([CHR 0x60] @ '' for '' @ auto_name @ ''. '' @ ''Supported model types: ''
             @ py_repr_tuple keys)"
    by (simp add: unsupported_message_def)
  then show ?thesis unfolding sublist_def by blast
qed

lemma unsupported_message_lists:
  assumes "k \<in> set keys"
  shows "sublist (py_repr_str k) (unsupported_message model_type auto_name keys)"
proof -
  from sublist_py_repr_tuple [OF assms] obtain ps ss
    where "py_repr_tuple keys = ps @ py_repr_str k @ ss"
    by (auto simp: sublist_def)
  then have "unsupported_message model_type auto_name keys =
          (''Unsupported model type '' @ [CHR 0x60] @ model_type @ [CHR 0x60] @ '' for ''
             @ auto_name @ ''. '' @ ''Supported model types: '' @ ps) @ py_repr_str k @ ss"
    by (simp add: unsupported_message_def)
  then show ?thesis unfolding sublist_def by blast
qed

lemma AutoDecoder_keys_repr:
  "py_repr_tuple (map fst (AutoDecoder_HF_MODEL_TYPE_TO_CURATED g l r)) =
     ''('' @ [CHR 0x27] @ ''gpt_neox'' @ [CHR 0x27] @ '', '' @ [CHR 0x27] @ ''llama'' @ [CHR 0x27]
       @ '', '' @ [CHR 0x27] @ ''RefinedWeb'' @ [CHR 0x27] @ '', '' @ [CHR 0x27]
       @ ''RefinedWebModel'' @ [CHR 0x27] @ '')''"
  by (simp add: AutoDecoder_HF_MODEL_TYPE_TO_CURATED_def py_repr_tuple_def py_repr_str_def
      repr_quote_def repr_char_def py_printable_def Let_def)


text \<open>
  C3. Let the hub report the model type \<open>model_type\<close> for the model name. When
  \<open>model_type\<close> is not a key of the map, \<^verbatim>\<open>_instantiate_module_from_hf_hub\<close> raises
  \<open>ValueError\<close> in the state the hub was left in by reading the model type, so no class of
  the map has built anything; the message holds the model type and the \<^verbatim>\<open>repr\<close> of every
  key. When \<open>model_type\<close> is a key, and its class is a \<^verbatim>\<open>FromPretrainedHFModel\<close> as the
  code asserts, the result is that of the class's \<^verbatim>\<open>from_hf_hub\<close> on the same name,
  revision, device and quantization configuration. \<^verbatim>\<open>AutoDecoder.from_hf_hub\<close> does the
  same with its own map: for a model type outside it the message lists its four keys, for
  a key the module built is returned once it is asserted to be a \<^verbatim>\<open>DecoderModule\<close>.
\<close>

theorem from_hf_hub_unsupported_or_dispatch:
  fixes m :: "(string \<times> ('dev, 'qc, 'm, 'w) model_class) list"
    and GPTNeoXDecoder LLaMADecoder RefinedWebModelDecoder :: "('dev, 'qc, 'm, 'w) model_class"
  assumes "get_hf_config_model_type name revision w = (Inr model_type, w')"
  shows
    "(model_type \<notin> set (map fst m) \<longrightarrow>
        instantiate_module_from_hf_hub get_hf_config_model_type auto_name name revision device
            quantization_config m w
          = (Inl (ValueError (unsupported_message model_type auto_name (map fst m))), w')
        \<and> sublist model_type (unsupported_message model_type auto_name (map fst m))
        \<and> (\<forall>k \<in> set (map fst m).
              sublist (py_repr_str k) (unsupported_message model_type auto_name (map fst m))))
     \<and> (\<forall>c. map_of m model_type = Some c \<and> is_FromPretrainedHFModel c \<longrightarrow>
           instantiate_module_from_hf_hub get_hf_config_model_type auto_name name revision device
               quantization_config m w
             = cls_from_hf_hub c name revision device quantization_config w')
     \<and> (model_type \<notin> {''gpt_neox'', ''llama'', ''RefinedWeb'', ''RefinedWebModel''} \<longrightarrow>
          AutoDecoder_from_hf_hub get_hf_config_model_type is_DecoderModule
              (AutoDecoder_HF_MODEL_TYPE_TO_CURATED GPTNeoXDecoder LLaMADecoder
                 RefinedWebModelDecoder)
              name revision device quantization_config w
            = (Inl (ValueError
                 (''Unsupported model type '' @ [CHR 0x60] @ model_type @ [CHR 0x60]
                    @ '' for AutoDecoder. Supported model types: (''
                    @ [CHR 0x27] @ ''gpt_neox'' @ [CHR 0x27] @ '', ''
                    @ [CHR 0x27] @ ''llama'' @ [CHR 0x27] @ '', ''
                    @ [CHR 0x27] @ ''RefinedWeb'' @ [CHR 0x27] @ '', ''
                    @ [CHR 0x27] @ ''RefinedWebModel'' @ [CHR 0x27] @ '')'')), w'))
     \<and> (\<forall>c. map_of (AutoDecoder_HF_MODEL_TYPE_TO_CURATED GPTNeoXDecoder LLaMADecoder
                       RefinedWebModelDecoder) model_type = Some c
              \<and> is_FromPretrainedHFModel c \<longrightarrow>
           AutoDecoder_from_hf_hub get_hf_config_model_type is_DecoderModule
              (AutoDecoder_HF_MODEL_TYPE_TO_CURATED GPTNeoXDecoder LLaMADecoder
                 RefinedWebModelDecoder)
              name revision device quantization_config w
            = (case cls_from_hf_hub c name revision device quantization_config w' of
                 (Inl e, w'') \<Rightarrow> (Inl e, w'')
               | (Inr decoder, w'') \<Rightarrow>
                   if is_DecoderModule decoder then (Inr decoder, w'')
                   else (Inl AssertionError, w'')))"
proof (intro conjI impI allI ballI)
  assume absent: "model_type \<notin> set (map fst m)"
  then have "map_of m model_type = None"
    by (simp add: map_of_eq_None_iff)
  with assms
  show "instantiate_module_from_hf_hub get_hf_config_model_type auto_name name revision device
            quantization_config m w
          = (Inl (ValueError (unsupported_message model_type auto_name (map fst m))), w')"
    by (simp add: instantiate_module_from_hf_hub_def)
  show "sublist model_type (unsupported_message model_type auto_name (map fst m))"
    by (rule unsupported_message_names)
next
  fix k
  assume "k \<in> set (map fst m)"
  then show "sublist (py_repr_str k) (unsupported_message model_type auto_name (map fst m))"
    by (rule unsupported_message_lists)
next
  fix c :: "('dev, 'qc, 'm, 'w) model_class"
  assume "map_of m model_type = Some c \<and> is_FromPretrainedHFModel c"
  with assms
  show "instantiate_module_from_hf_hub get_hf_config_model_type auto_name name revision device
               quantization_config m w
             = cls_from_hf_hub c name revision device quantization_config w'"
    by (simp add: instantiate_module_from_hf_hub_def)
next
  let ?map = "AutoDecoder_HF_MODEL_TYPE_TO_CURATED GPTNeoXDecoder LLaMADecoder
                 RefinedWebModelDecoder"
  assume "model_type \<notin> {''gpt_neox'', ''llama'', ''RefinedWeb'', ''RefinedWebModel''}"
  then have "map_of ?map model_type = None"
    by (simp add: AutoDecoder_HF_MODEL_TYPE_TO_CURATED_def)
  with assms
  have "AutoDecoder_from_hf_hub get_hf_config_model_type is_DecoderModule ?map
              name revision device quantization_config w
          = (Inl (ValueError (unsupported_message model_type ''AutoDecoder'' (map fst ?map))), w')"
    by (simp add: AutoDecoder_from_hf_hub_def instantiate_module_from_hf_hub_def)
  then show "AutoDecoder_from_hf_hub get_hf_config_model_type is_DecoderModule ?map
              name revision device quantization_config w
            = (Inl (ValueError
                 (''Unsupported model type '' @ [CHR 0x60] @ model_type @ [CHR 0x60]
                    @ '' for AutoDecoder. Supported model types: (''
                    @ [CHR 0x27] @ ''gpt_neox'' @ [CHR 0x27] @ '', ''
                    @ [CHR 0x27] @ ''llama'' @ [CHR 0x27] @ '', ''
                    @ [CHR 0x27] @ ''RefinedWeb'' @ [CHR 0x27] @ '', ''
                    @ [CHR 0x27] @ ''RefinedWebModel'' @ [CHR 0x27] @ '')'')), w')"
    by (simp add: unsupported_message_def AutoDecoder_keys_repr)
next
  let ?map = "AutoDecoder_HF_MODEL_TYPE_TO_CURATED GPTNeoXDecoder LLaMADecoder
                 RefinedWebModelDecoder"
  fix c :: "('dev, 'qc, 'm, 'w) model_class"
  assume "map_of ?map model_type = Some c \<and> is_FromPretrainedHFModel c"
  with assms
  show "AutoDecoder_from_hf_hub get_hf_config_model_type is_DecoderModule ?map
              name revision device quantization_config w
            = (case cls_from_hf_hub c name revision device quantization_config w' of
                 (Inl e, w'') \<Rightarrow> (Inl e, w'')
               | (Inr decoder, w'') \<Rightarrow>
                   if is_DecoderModule decoder then (Inr decoder, w'')
                   else (Inl AssertionError, w''))"
    by (simp add: AutoDecoder_from_hf_hub_def instantiate_module_from_hf_hub_def
        split: prod.splits sum.splits)
qed

theorem from_hf_hub_witness:
  "AutoDecoder_from_hf_hub
      (\<lambda>name revision w. (Inr (if name = ''org/bert'' then ''bert'' else ''llama''), w))
      (\<lambda>decoder. True)
      (AutoDecoder_HF_MODEL_TYPE_TO_CURATED
        \<lparr> cls_name = ''GPTNeoXDecoder'', is_FromPretrainedHFModel = True,
          cls_from_hf_hub = (\<lambda>name revision device qc w. (Inr (''gpt_neox module'', name), w @ [''GPTNeoXDecoder''])) \<rparr>
        \<lparr> cls_name = ''LLaMADecoder'', is_FromPretrainedHFModel = True,
          cls_from_hf_hub = (\<lambda>name revision device qc w. (Inr (''llama module'', name), w @ [''LLaMADecoder''])) \<rparr>
        \<lparr> cls_name = ''RefinedWebModelDecoder'', is_FromPretrainedHFModel = True,
          cls_from_hf_hub = (\<lambda>name revision device qc w. (Inr (''refined web module'', name), w @ [''RefinedWebModelDecoder''])) \<rparr>)
      ''org/bert'' ''main'' (None :: unit option) (None :: unit option) []
    = (Inl (ValueError
         (''Unsupported model type '' @ [CHR 0x60] @ ''bert'' @ [CHR 0x60]
            @ '' for AutoDecoder. Supported model types: (''
            @ [CHR 0x27] @ ''gpt_neox'' @ [CHR 0x27] @ '', ''
            @ [CHR 0x27] @ ''llama'' @ [CHR 0x27] @ '', ''
            @ [CHR 0x27] @ ''RefinedWeb'' @ [CHR 0x27] @ '', ''
            @ [CHR 0x27] @ ''RefinedWebModel'' @ [CHR 0x27] @ '')'')), [])
   \<and> AutoDecoder_from_hf_hub
      (\<lambda>name revision w. (Inr (if name = ''org/bert'' then ''bert'' else ''llama''), w))
      (\<lambda>decoder. True)
      (AutoDecoder_HF_MODEL_TYPE_TO_CURATED
        \<lparr> cls_name = ''GPTNeoXDecoder'', is_FromPretrainedHFModel = True,
          cls_from_hf_hub = (\<lambda>name revision device qc w. (Inr (''gpt_neox module'', name), w @ [''GPTNeoXDecoder''])) \<rparr>
        \<lparr> cls_name = ''LLaMADecoder'', is_FromPretrainedHFModel = True,
          cls_from_hf_hub = (\<lambda>name revision device qc w. (Inr (''llama module'', name), w @ [''LLaMADecoder''])) \<rparr>
        \<lparr> cls_name = ''RefinedWebModelDecoder'', is_FromPretrainedHFModel = True,
          cls_from_hf_hub = (\<lambda>name revision device qc w. (Inr (''refined web module'', name), w @ [''RefinedWebModelDecoder''])) \<rparr>)
      ''org/llama'' ''main'' (None :: unit option) (None :: unit option) []
    = (Inr (''llama module'', ''org/llama''), [''LLaMADecoder''])"
proof -
  let ?get = "\<lambda>(name::string) (revision::string) (w::string list).
                (Inr (if name = ''org/bert'' then ''bert'' else ''llama'') :: py_error + string, w)"
  let ?G = "\<lparr> cls_name = ''GPTNeoXDecoder'', is_FromPretrainedHFModel = True,
          cls_from_hf_hub = (\<lambda>(name::string) (revision::string) (device::unit option)
             (qc::unit option) (w::string list).
             (Inr (''gpt_neox module'', name) :: py_error + string \<times> string, w @ [''GPTNeoXDecoder''])) \<rparr>"
  let ?L = "\<lparr> cls_name = ''LLaMADecoder'', is_FromPretrainedHFModel = True,
          cls_from_hf_hub = (\<lambda>(name::string) (revision::string) (device::unit option)
             (qc::unit option) (w::string list).
             (Inr (''llama module'', name) :: py_error + string \<times> string, w @ [''LLaMADecoder''])) \<rparr>"
  let ?R = "\<lparr> cls_name = ''RefinedWebModelDecoder'', is_FromPretrainedHFModel = True,
          cls_from_hf_hub = (\<lambda>(name::string) (revision::string) (device::unit option)
             (qc::unit option) (w::string list).
             (Inr (''refined web module'', name) :: py_error + string \<times> string, w @ [''RefinedWebModelDecoder''])) \<rparr>"
  note t1 = from_hf_hub_unsupported_or_dispatch [where get_hf_config_model_type = ?get
      and name = "''org/bert''" and revision = "''main''" and w = "[]" and w' = "[]"
      and model_type = "''bert''" and is_DecoderModule = "\<lambda>decoder. True"
      and GPTNeoXDecoder = ?G and LLaMADecoder = ?L and RefinedWebModelDecoder = ?R
      and device = None and quantization_config = None and m = "[]"]
  note t2 = from_hf_hub_unsupported_or_dispatch [where get_hf_config_model_type = ?get
      and name = "''org/llama''" and revision = "''main''" and w = "[]" and w' = "[]"
      and model_type = "''llama''" and is_DecoderModule = "\<lambda>decoder. True"
      and GPTNeoXDecoder = ?G and LLaMADecoder = ?L and RefinedWebModelDecoder = ?R
      and device = None and quantization_config = None and m = "[]"]
  from t1 have "AutoDecoder_from_hf_hub ?get (\<lambda>decoder. True)
      (AutoDecoder_HF_MODEL_TYPE_TO_CURATED ?G ?L ?R) ''org/bert'' ''main'' None None []
    = (Inl (ValueError
         (''Unsupported model type '' @ [CHR 0x60] @ ''bert'' @ [CHR 0x60]
            @ '' for AutoDecoder. Supported model types: (''
            @ [CHR 0x27] @ ''gpt_neox'' @ [CHR 0x27] @ '', ''
            @ [CHR 0x27] @ ''llama'' @ [CHR 0x27] @ '', ''
            @ [CHR 0x27] @ ''RefinedWeb'' @ [CHR 0x27] @ '', ''
            @ [CHR 0x27] @ ''RefinedWebModel'' @ [CHR 0x27] @ '')'')), [])"
    by simp
  moreover from t2 have "AutoDecoder_from_hf_hub ?get (\<lambda>decoder. True)
      (AutoDecoder_HF_MODEL_TYPE_TO_CURATED ?G ?L ?R) ''org/llama'' ''main'' None None []
    = (Inr (''llama module'', ''org/llama''), [''LLaMADecoder''])"
    by (simp add: AutoDecoder_HF_MODEL_TYPE_TO_CURATED_def)
  ultimately show ?thesis by simp
qed

subsection \<open>Causal language model\<close>

lemma LLaMACausalLM_forward_Inl:
  assumes "lm_decoder self input_ids attention_mask cache store_cache positions = Inl e"
  shows "LLaMACausalLM_forward self input_ids attention_mask cache positions store_cache = Inl e"
  using assms by (simp add: LLaMACausalLM_forward_def)

lemma sum_list_map2_sum:
  "length row = length v \<Longrightarrow>
     sum_list (map2 (*) row v) = (\<Sum>k<length v. row ! k * (v ! k :: 'a::semiring_0))"
proof (induction row v rule: list_induct2')
  case 1
  then show ?case by simp
next
  case (2 x xs)
  then show ?case by simp
next
  case (3 y ys)
  then show ?case by simp
next
  case (4 x xs y ys)
  then have "sum_list (map2 (*) xs ys) = (\<Sum>k<length ys. xs ! k * ys ! k)" by simp
  then show ?case
    by (simp add: sum.lessThan_Suc_shift del: sum.lessThan_Suc)
qed

lemma Linear_forward_ok:
  assumes "\<forall>b<length t. \<forall>s<length (t ! b). length (t ! b ! s) = lin_in_features lin"
    and "\<forall>v<length (lin_weight lin). length (lin_weight lin ! v) = lin_in_features lin"
  shows "Linear_forward lin t =
           Inr (map (map (\<lambda>v. map (\<lambda>row. sum_list (map2 (*) row v)) (lin_weight lin))) t)"
  using assms by (simp add: Linear_forward_def list_all_length)

lemma Linear_forward_raises:
  assumes "\<not> ((\<forall>b<length t. \<forall>s<length (t ! b). length (t ! b ! s) = lin_in_features lin)
             \<and> (\<forall>v<length (lin_weight lin). length (lin_weight lin ! v) = lin_in_features lin))"
  shows "Linear_forward lin t = Inl RuntimeError"
  using assms by (auto simp: Linear_forward_def list_all_length)

text \<open>
  C1 (as the code has it). Let the decoder return, with or without a cache, the last
  hidden layer states \<open>H\<close>, and let the output embedding have the weight \<open>W\<close> over
  \<open>n\<close> input features. When every hidden state has \<open>n\<close> entries (and \<open>W\<close> is a matrix over
  \<open>n\<close> columns), the call returns the decoder's cache, embeddings and hidden states
  together with logits of one row per batch element and one vector per position of \<open>H\<close>,
  each the products of the rows of \<open>W\<close> with the hidden state at that position: no
  position is left out. So for a decoder that returns one hidden state per input
  position the logits have one vector per input position. Otherwise the call raises
  \<open>RuntimeError\<close>.
\<close>

theorem forward_logits_every_position:
  assumes "lm_decoder self input_ids attention_mask cache store_cache positions = Inr d"
    and "H = dec_last_hidden_layer_states d"
    and "W = lin_weight (lm_output_embeddings self)"
    and "n = lin_in_features (lm_output_embeddings self)"
  shows
    "((\<forall>b<length H. \<forall>s<length (H ! b). length (H ! b ! s) = n)
        \<and> (\<forall>v<length W. length (W ! v) = n) \<longrightarrow>
      (\<exists>out. LLaMACausalLM_forward self input_ids attention_mask cache positions store_cache
               = Inr out
         \<and> lm_cache out = dec_cache d
         \<and> lm_embedding_output out = dec_embedding_layer d
         \<and> lm_layer_hidden_states out = dec_all_hidden_layer_states d
         \<and> length (logits out) = length H
         \<and> (\<forall>b<length H.
               length (logits out ! b) = length (H ! b)
               \<and> (\<forall>s<length (H ! b).
                     length (logits out ! b ! s) = length W
                     \<and> (\<forall>v<length W.
                           logits out ! b ! s ! v = (\<Sum>k<n. W ! v ! k * H ! b ! s ! k))))
         \<and> (map length H = map length input_ids \<longrightarrow>
               map length (logits out) = map length input_ids)))
     \<and> (\<not> ((\<forall>b<length H. \<forall>s<length (H ! b). length (H ! b ! s) = n)
              \<and> (\<forall>v<length W. length (W ! v) = n)) \<longrightarrow>
          LLaMACausalLM_forward self input_ids attention_mask cache positions store_cache
            = Inl RuntimeError)"
proof (intro conjI impI)
  assume ok: "(\<forall>b<length H. \<forall>s<length (H ! b). length (H ! b ! s) = n)
                \<and> (\<forall>v<length W. length (W ! v) = n)"
  let ?L = "map (map (\<lambda>v. map (\<lambda>row. sum_list (map2 (*) row v)) W)) H"
  let ?out = "\<lparr> lm_cache = dec_cache d,
                lm_embedding_output = dec_embedding_layer d,
                lm_layer_hidden_states = dec_all_hidden_layer_states d,
                logits = ?L \<rparr>"
  have lin: "Linear_forward (lm_output_embeddings self) H = Inr ?L"
    using ok assms(3,4) Linear_forward_ok [of H "lm_output_embeddings self"] by simp
  have fwd: "LLaMACausalLM_forward self input_ids attention_mask cache positions store_cache
               = Inr ?out"
    using assms(1,2) lin by (simp add: LLaMACausalLM_forward_def)
  have entry: "?L ! b ! s ! v = (\<Sum>k<n. W ! v ! k * H ! b ! s ! k)"
    if "b < length H" "s < length (H ! b)" "v < length W" for b s v
  proof -
    from ok that have len: "length (W ! v) = length (H ! b ! s)" "length (H ! b ! s) = n"
      by simp_all
    from that have "?L ! b ! s ! v = sum_list (map2 (*) (W ! v) (H ! b ! s))" by simp
    also have "\<dots> = (\<Sum>k<length (H ! b ! s). W ! v ! k * H ! b ! s ! k)"
      using len(1) by (rule sum_list_map2_sum)
    finally show ?thesis using len(2) by simp
  qed
  have shape: "map length ?L = map length H" by simp
  show "\<exists>out. LLaMACausalLM_forward self input_ids attention_mask cache positions store_cache
               = Inr out
         \<and> lm_cache out = dec_cache d
         \<and> lm_embedding_output out = dec_embedding_layer d
         \<and> lm_layer_hidden_states out = dec_all_hidden_layer_states d
         \<and> length (logits out) = length H
         \<and> (\<forall>b<length H.
               length (logits out ! b) = length (H ! b)
               \<and> (\<forall>s<length (H ! b).
                     length (logits out ! b ! s) = length W
                     \<and> (\<forall>v<length W.
                           logits out ! b ! s ! v = (\<Sum>k<n. W ! v ! k * H ! b ! s ! k))))
         \<and> (map length H = map length input_ids \<longrightarrow>
               map length (logits out) = map length input_ids)"
  proof (intro exI [of _ ?out] conjI allI impI)
    show "LLaMACausalLM_forward self input_ids attention_mask cache positions store_cache
            = Inr ?out" by (rule fwd)
    show "map length (logits ?out) = map length input_ids"
      if "map length H = map length input_ids"
      using that shape by simp
    show "logits ?out ! b ! s ! v = (\<Sum>k<n. W ! v ! k * H ! b ! s ! k)"
      if "b < length H" "s < length (H ! b)" "v < length W" for b s v
      using entry [OF that] by simp
  qed simp_all
next
  assume "\<not> ((\<forall>b<length H. \<forall>s<length (H ! b). length (H ! b ! s) = n)
              \<and> (\<forall>v<length W. length (W ! v) = n))"
  then have "Linear_forward (lm_output_embeddings self) H = Inl RuntimeError"
    using assms(3,4) Linear_forward_raises [of H "lm_output_embeddings self"] by simp
  with assms(1,2)
  show "LLaMACausalLM_forward self input_ids attention_mask cache positions store_cache
          = Inl RuntimeError"
    by (simp add: LLaMACausalLM_forward_def)
qed

theorem forward_logits_every_position_witness:
  "LLaMACausalLM_forward
     \<lparr> lm_decoder = (\<lambda>input_ids attention_mask cache store_cache positions.
          Inr \<lparr> dec_cache = None,
                dec_embedding_layer = map (map (\<lambda>t. [t, 1])) input_ids,
                dec_all_hidden_layer_states = [map (map (\<lambda>t. [t, 1])) input_ids],
                dec_last_hidden_layer_states = map (map (\<lambda>t. [t, 1])) input_ids \<rparr>),
       lm_output_embeddings =
         \<lparr> lin_in_features = 2, lin_weight = [[1, 0], [0, 1], [1, 1]] \<rparr> \<rparr>
     [[3, 4, 5]] None None None False
   = Inr \<lparr> lm_cache = None,
           lm_embedding_output = [[[3, 1], [4, 1], [5, 1]]],
           lm_layer_hidden_states = [[[[3, 1], [4, 1], [5, 1]]]],
           logits = [[[3, 1, 4], [4, 1, 5], [5, 1, 6 :: int]]] \<rparr>
   \<and> LLaMACausalLM_forward
     \<lparr> lm_decoder = (\<lambda>input_ids attention_mask cache store_cache positions.
          Inr \<lparr> dec_cache = None,
                dec_embedding_layer = map (map (\<lambda>t. [t, 1])) input_ids,
                dec_all_hidden_layer_states = [map (map (\<lambda>t. [t, 1])) input_ids],
                dec_last_hidden_layer_states = map (map (\<lambda>t. [t, 1])) input_ids \<rparr>),
       lm_output_embeddings =
         \<lparr> lin_in_features = 3, lin_weight = [[1, 0, 0], [0, 1, 0 :: int]] \<rparr> \<rparr>
     [[3, 4, 5]] None None None False
   = Inl RuntimeError"
proof -
  let ?dec = "\<lambda>(input_ids :: int list list) (attention_mask :: bool list list option)
      (cache :: int KeyValueCache list option) (store_cache :: bool)
      (positions :: int list list option).
          Inr \<lparr> dec_cache = None,
                dec_embedding_layer = map (map (\<lambda>t. [t, 1])) input_ids,
                dec_all_hidden_layer_states = [map (map (\<lambda>t. [t, 1])) input_ids],
                dec_last_hidden_layer_states = map (map (\<lambda>t. [t, 1])) input_ids \<rparr>
          :: py_error + int decoder_output"
  let ?d = "\<lparr> dec_cache = None,
                dec_embedding_layer = [[[3, 1], [4, 1], [5, 1]]],
                dec_all_hidden_layer_states = [[[[3, 1], [4, 1], [5, 1]]]],
                dec_last_hidden_layer_states = [[[3, 1], [4, 1], [5, 1 :: int]]] \<rparr>"
  let ?self = "\<lparr> lm_decoder = ?dec, lm_output_embeddings =
                  \<lparr> lin_in_features = 2, lin_weight = [[1, 0], [0, 1], [1, 1]] \<rparr> \<rparr>"
  let ?self' = "\<lparr> lm_decoder = ?dec, lm_output_embeddings =
                  \<lparr> lin_in_features = 3, lin_weight = [[1, 0, 0], [0, 1, 0]] \<rparr> \<rparr>"
  have d: "lm_decoder ?self [[3, 4, 5]] None None False None = Inr ?d"
    and d': "lm_decoder ?self' [[3, 4, 5]] None None False None = Inr ?d"
    by simp_all
  have ok: "(\<forall>b<length [[[3, 1], [4, 1], [5, 1 :: int]]].
               \<forall>s<length ([[[3, 1], [4, 1], [5, 1 :: int]]] ! b).
                 length ([[[3, 1], [4, 1], [5, 1 :: int]]] ! b ! s) = 2)
            \<and> (\<forall>v<length [[1, 0], [0, 1], [1, 1 :: int]].
                 length ([[1, 0], [0, 1], [1, 1 :: int]] ! v) = 2)"
    by (simp add: less_Suc_eq all_conj_distrib)
  from forward_logits_every_position [OF d, of "[[[3, 1], [4, 1], [5, 1]]]"
      "[[1, 0], [0, 1], [1, 1]]" 2] ok
  obtain out where "LLaMACausalLM_forward ?self [[3, 4, 5]] None None None False = Inr out"
    by auto
  then have 1: "LLaMACausalLM_forward ?self [[3, 4, 5]] None None None False
     = Inr \<lparr> lm_cache = None,
           lm_embedding_output = [[[3, 1], [4, 1], [5, 1]]],
           lm_layer_hidden_states = [[[[3, 1], [4, 1], [5, 1]]]],
           logits = [[[3, 1, 4], [4, 1, 5], [5, 1, 6 :: int]]] \<rparr>"
    by (simp add: LLaMACausalLM_forward_def Linear_forward_def)
  have 2: "LLaMACausalLM_forward ?self' [[3, 4, 5]] None None None False = Inl RuntimeError"
    by (rule forward_logits_every_position [OF d' refl refl refl, THEN conjunct2, THEN mp])
       (simp add: less_Suc_eq all_conj_distrib)
  from 1 2 show ?thesis by simp
qed

text \<open>
  C1 as stated fails. Take a decoder that, as the decoders of the library do, returns a
  hidden state for every position of its input (here one layer over the embeddings) and
  hands the cache on. A call that supplies a cache together with two new tokens returns
  logits for both positions, not for the last one only.
\<close>

theorem forward_logits_last_position_counterexample:
  "LLaMACausalLM_forward
     \<lparr> lm_decoder = (\<lambda>input_ids attention_mask cache store_cache positions.
          Inr \<lparr> dec_cache = cache,
                dec_embedding_layer = map (map (\<lambda>t. [t, 1])) input_ids,
                dec_all_hidden_layer_states =
                  [map (map (\<lambda>t. [t, 1])) input_ids, map (map (\<lambda>t. [2 * t, 2])) input_ids],
                dec_last_hidden_layer_states = map (map (\<lambda>t. [2 * t, 2])) input_ids \<rparr>),
       lm_output_embeddings =
         \<lparr> lin_in_features = 2, lin_weight = [[1, 0], [0, 1], [1, 1]] \<rparr> \<rparr>
     [[3, 4]] None (Some [\<lparr> kv_key = [[[[5, 5]]]], kv_value = [[[[6, 6]]]] \<rparr>]) None True
   = Inr \<lparr> lm_cache = Some [\<lparr> kv_key = [[[[5, 5]]]], kv_value = [[[[6, 6]]]] \<rparr>],
           lm_embedding_output = [[[3, 1], [4, 1]]],
           lm_layer_hidden_states = [[[[3, 1], [4, 1]]], [[[6, 2], [8, 2]]]],
           logits = [[[6, 2, 8], [8, 2, 10 :: int]]] \<rparr>"
  by (simp add: LLaMACausalLM_forward_def Linear_forward_def)

text \<open>
  C2. When a cache is supplied whose number of entries differs from the number of layers
  of the decoder, or one of whose entries has keys or values of a batch dimension other
  than that of the input ids, the forward call of the causal language model raises the
  configuration error, whatever the embedding module and the layers of the decoder are
  (also layers that would raise an exception of their own when run): there is no output.
\<close>

theorem forward_cache_mismatch_raises:
  assumes "length c \<noteq> length (dec_layers dec)
             \<or> (\<exists>kv \<in> set c. length (kv_key kv) \<noteq> length input_ids
                              \<or> length (kv_value kv) \<noteq> length input_ids)"
  shows "LLaMACausalLM_forward \<lparr> lm_decoder = LLaMADecoder_forward dec, lm_output_embeddings = W \<rparr>
           input_ids attention_mask (Some c) positions store_cache = Inl ConfigurationError"
proof -
  from assms have "\<not> cache_matches dec input_ids c"
    by (auto simp: cache_matches_def list_all_iff)
  then have "LLaMADecoder_forward dec input_ids attention_mask (Some c) store_cache positions
               = Inl ConfigurationError"
    by (simp add: LLaMADecoder_forward_def)
  then show ?thesis
    by (intro LLaMACausalLM_forward_Inl) simp
qed

theorem forward_cache_mismatch_witness:
  "LLaMACausalLM_forward
     \<lparr> lm_decoder = LLaMADecoder_forward
         \<lparr> dec_embeddings = map (map (\<lambda>t. [t, 1])),
           dec_layers = [\<lambda>h m c p s. Inl (Raised ''layer ran'')] \<rparr>,
       lm_output_embeddings = \<lparr> lin_in_features = 2, lin_weight = [[1, 0], [0, 1 :: int]] \<rparr> \<rparr>
     [[3, 4]] None (Some []) None False = Inl ConfigurationError
   \<and> LLaMACausalLM_forward
     \<lparr> lm_decoder = LLaMADecoder_forward
         \<lparr> dec_embeddings = map (map (\<lambda>t. [t, 1])),
           dec_layers = [\<lambda>h m c p s. Inl (Raised ''layer ran'')] \<rparr>,
       lm_output_embeddings = \<lparr> lin_in_features = 2, lin_weight = [[1, 0], [0, 1 :: int]] \<rparr> \<rparr>
     [[3, 4]] None
     (Some [\<lparr> kv_key = [[[[5, 5]]], [[[5, 5]]]], kv_value = [[[[6, 6]]], [[[6, 6]]]] \<rparr>])
     None False = Inl ConfigurationError"
proof -
  let ?dec = "\<lparr> dec_embeddings = map (map (\<lambda>t::int. [t, 1])),
           dec_layers = [\<lambda>h m c p s. Inl (Raised ''layer ran'')] \<rparr>"
  let ?c = "[\<lparr> kv_key = [[[[5, 5]]], [[[5, 5 :: int]]]], kv_value = [[[[6, 6]]], [[[6, 6]]]] \<rparr>]"
  have 1: "length ([] :: int KeyValueCache list) \<noteq> length (dec_layers ?dec)
             \<or> (\<exists>kv \<in> set []. length (kv_key kv) \<noteq> length [[3, 4 :: int]]
                              \<or> length (kv_value kv) \<noteq> length [[3, 4 :: int]])"
    by simp
  have 2: "length ?c \<noteq> length (dec_layers ?dec)
             \<or> (\<exists>kv \<in> set ?c. length (kv_key kv) \<noteq> length [[3, 4 :: int]]
                              \<or> length (kv_value kv) \<noteq> length [[3, 4 :: int]])"
    by simp
  from forward_cache_mismatch_raises [OF 1] forward_cache_mismatch_raises [OF 2]
  show ?thesis by simp
qed

subsection \<open>Padded tensor and attention mask\<close>

lemma max_len_ge: "s \<in> set seqs \<Longrightarrow> length s \<le> max_len seqs"
  by (induction seqs) (auto simp: max_len_def)

lemma max_len_attained: "seqs \<noteq> [] \<Longrightarrow> \<exists>s \<in> set seqs. length s = max_len seqs"
proof (induction seqs)
  case Nil
  then show ?case by simp
next
  case (Cons a seqs)
  show ?case
  proof (cases "seqs = []")
    case True
    then show ?thesis by (simp add: max_len_def)
  next
    case False
    with Cons.IH obtain s where s: "s \<in> set seqs" "length s = max_len seqs" by blast
    have m: "max_len (a # seqs) = max (length a) (max_len seqs)"
      by (simp add: max_len_def)
    show ?thesis
    proof (cases "length a \<le> max_len seqs")
      case True
      with m s show ?thesis by (auto simp: max_def)
    next
      case False
      with m show ?thesis by (auto simp: max_def)
    qed
  qed
qed

lemma padded_tensor_row:
  assumes "i < length (pw_ids p)"
  shows "PiecesWithIds_padded_tensor p padding_id ! i =
           pw_ids p ! i @ replicate (max_len (pw_ids p) - length (pw_ids p ! i)) padding_id"
  using assms by (simp add: PiecesWithIds_padded_tensor_def)

lemma padded_tensor_row_length:
  assumes "i < length (pw_ids p)"
  shows "length (PiecesWithIds_padded_tensor p padding_id ! i) = max_len (pw_ids p)"
proof -
  from assms have "length (pw_ids p ! i) \<le> max_len (pw_ids p)"
    by (intro max_len_ge) simp
  with assms show ?thesis by (simp add: padded_tensor_row)
qed

text \<open>
  C5. The padded tensor has one row per sequence of the batch and as many columns as the
  longest sequence has ids (that length is reached by a sequence of a non-empty batch and
  exceeded by none); a row holds the ids of its sequence at the positions below the
  length of the sequence and the pad id at every position from there on.
\<close>

theorem padded_tensor_shape_and_padding:
  "length (PiecesWithIds_padded_tensor p padding_id) = length (pw_ids p)
   \<and> (\<forall>s \<in> set (pw_ids p). length s \<le> max_len (pw_ids p))
   \<and> (pw_ids p \<noteq> [] \<longrightarrow> (\<exists>s \<in> set (pw_ids p). length s = max_len (pw_ids p)))
   \<and> (\<forall>i < length (pw_ids p).
         length (PiecesWithIds_padded_tensor p padding_id ! i) = max_len (pw_ids p)
         \<and> (\<forall>j < max_len (pw_ids p).
               PiecesWithIds_padded_tensor p padding_id ! i ! j =
                 (if j < length (pw_ids p ! i) then pw_ids p ! i ! j else padding_id)))"
proof (intro conjI ballI allI impI)
  show "length (PiecesWithIds_padded_tensor p padding_id) = length (pw_ids p)"
    by (simp add: PiecesWithIds_padded_tensor_def)
next
  fix s assume "s \<in> set (pw_ids p)"
  then show "length s \<le> max_len (pw_ids p)" by (rule max_len_ge)
next
  assume "pw_ids p \<noteq> []"
  then show "\<exists>s \<in> set (pw_ids p). length s = max_len (pw_ids p)" by (rule max_len_attained)
next
  fix i assume "i < length (pw_ids p)"
  then show "length (PiecesWithIds_padded_tensor p padding_id ! i) = max_len (pw_ids p)"
    by (rule padded_tensor_row_length)
next
  fix i j assume i: "i < length (pw_ids p)" and j: "j < max_len (pw_ids p)"
  then show "PiecesWithIds_padded_tensor p padding_id ! i ! j =
                 (if j < length (pw_ids p ! i) then pw_ids p ! i ! j else padding_id)"
    by (simp add: padded_tensor_row nth_append)
qed

lemma toy_max_len: "max_len (pw_ids toy_encoding) = 22"
  by (simp add: toy_encoding_def max_len_def)

theorem padded_tensor_witness:
  "PiecesWithIds_padded_tensor toy_encoding 1 =
     [[2, 41, 818, 61, 67, 193, 88, 204, 61, 251, 909, 682, 102, 95, 17, 3, 1, 1, 1, 1, 1, 1],
      [2, 824, 98, 189, 311, 417, 65, 155, 503, 99, 1, 416, 117, 88, 15, 844, 91, 100,
       163, 183, 5, 3]]
   \<and> length (PiecesWithIds_padded_tensor toy_encoding 1) = 2
   \<and> length (PiecesWithIds_padded_tensor toy_encoding 1 ! 0) = 22
   \<and> PiecesWithIds_padded_tensor toy_encoding 1 ! 0 ! 15 = 3
   \<and> PiecesWithIds_padded_tensor toy_encoding 1 ! 0 ! 16 = 1"
proof -
  have e: "PiecesWithIds_padded_tensor toy_encoding 1 =
     [[2, 41, 818, 61, 67, 193, 88, 204, 61, 251, 909, 682, 102, 95, 17, 3, 1, 1, 1, 1, 1, 1],
      [2, 824, 98, 189, 311, 417, 65, 155, 503, 99, 1, 416, 117, 88, 15, 844, 91, 100,
       163, 183, 5, 3]]"
    unfolding PiecesWithIds_padded_tensor_def toy_max_len
    by (simp add: toy_encoding_def numeral_eq_Suc)
  have l: "length (pw_ids toy_encoding) = 2" "length (pw_ids toy_encoding ! 0) = 16"
    by (simp_all add: toy_encoding_def)
  from padded_tensor_shape_and_padding [of toy_encoding 1] l toy_max_len
  have "length (PiecesWithIds_padded_tensor toy_encoding 1) = 2"
    and "length (PiecesWithIds_padded_tensor toy_encoding 1 ! 0) = 22"
    and "PiecesWithIds_padded_tensor toy_encoding 1 ! 0 ! 15 = pw_ids toy_encoding ! 0 ! 15"
    and "PiecesWithIds_padded_tensor toy_encoding 1 ! 0 ! 16 = 1"
    by simp_all
  moreover have "pw_ids toy_encoding ! 0 ! 15 = 3"
    by (simp add: toy_encoding_def)
  ultimately show ?thesis using e by simp
qed

text \<open>
  C6. The attention mask has the shape of the padded tensor, and in every row it is True
  at the positions below the number of ids of the row's sequence and False at all other
  positions.
\<close>

theorem attention_mask_true_below_length:
  "length (PiecesWithIds_attention_mask p) = length (PiecesWithIds_padded_tensor p padding_id)
   \<and> (\<forall>i < length (pw_ids p).
         length (PiecesWithIds_attention_mask p ! i) = length (PiecesWithIds_padded_tensor p padding_id ! i)
         \<and> (\<forall>j < length (PiecesWithIds_attention_mask p ! i).
               PiecesWithIds_attention_mask p ! i ! j \<longleftrightarrow> j < length (pw_ids p ! i)))"
proof (intro conjI allI impI)
  show "length (PiecesWithIds_attention_mask p) = length (PiecesWithIds_padded_tensor p padding_id)"
    by (simp add: PiecesWithIds_attention_mask_def PiecesWithIds_padded_tensor_def)
next
  fix i assume i: "i < length (pw_ids p)"
  then show "length (PiecesWithIds_attention_mask p ! i) = length (PiecesWithIds_padded_tensor p padding_id ! i)"
    by (simp add: padded_tensor_row_length) (simp add: PiecesWithIds_attention_mask_def)
next
  fix i j assume i: "i < length (pw_ids p)" and j: "j < length (PiecesWithIds_attention_mask p ! i)"
  then show "PiecesWithIds_attention_mask p ! i ! j \<longleftrightarrow> j < length (pw_ids p ! i)"
    by (simp add: PiecesWithIds_attention_mask_def)
qed

theorem attention_mask_witness:
  "PiecesWithIds_attention_mask toy_encoding =
     [[True, True, True, True, True, True, True, True, True, True, True, True, True, True,
       True, True, False, False, False, False, False, False],
      [True, True, True, True, True, True, True, True, True, True, True, True, True, True,
       True, True, True, True, True, True, True, True]]
   \<and> length (PiecesWithIds_attention_mask toy_encoding) = length (PiecesWithIds_padded_tensor toy_encoding 1)
   \<and> length (PiecesWithIds_attention_mask toy_encoding ! 0) = length (PiecesWithIds_padded_tensor toy_encoding 1 ! 0)"
proof -
  have u: "[0..<22] = [0, 1, 2, 3, 4, 5, 6, 7, 8, 9, 10, 11, 12, 13, 14, 15, 16, 17, 18, 19,
                       20, 21 :: nat]"
    by (simp add: upt_rec)
  have e: "PiecesWithIds_attention_mask toy_encoding =
     [[True, True, True, True, True, True, True, True, True, True, True, True, True, True,
       True, True, False, False, False, False, False, False],
      [True, True, True, True, True, True, True, True, True, True, True, True, True, True,
       True, True, True, True, True, True, True, True]]"
    unfolding PiecesWithIds_attention_mask_def toy_max_len u
    by (simp add: toy_encoding_def)
  have l: "0 < length (pw_ids toy_encoding)"
    by (simp add: toy_encoding_def)
  from attention_mask_true_below_length [of toy_encoding 1] l
  have "length (PiecesWithIds_attention_mask toy_encoding) = length (PiecesWithIds_padded_tensor toy_encoding 1)"
    and "length (PiecesWithIds_attention_mask toy_encoding ! 0) = length (PiecesWithIds_padded_tensor toy_encoding 1 ! 0)"
    by simp_all
  with e show ?thesis by simp
qed

subsection \<open>BERT pre-encoder\<close>

lemma pre_test_examples:
  "BertPreEncoder_call test_unicode_data \<lparr> pre_lowercase = False, pre_strip_accents = True \<rparr>
     [codepoints ''AWO-Mitarbeiter''] = [codepoints ''AWO - Mitarbeiter'']"
  "BertPreEncoder_call test_unicode_data \<lparr> pre_lowercase = False, pre_strip_accents = True \<rparr>
     [codepoints ''-Mitarbeiter''] = [codepoints ''- Mitarbeiter'']"
  "BertPreEncoder_call test_unicode_data \<lparr> pre_lowercase = False, pre_strip_accents = True \<rparr>
     [codepoints ''AWO-''] = [codepoints ''AWO -'']"
  "BertPreEncoder_call test_unicode_data \<lparr> pre_lowercase = False, pre_strip_accents = True \<rparr>
     [codepoints ''-''] = [codepoints ''-'']"
  "BertPreEncoder_call test_unicode_data \<lparr> pre_lowercase = False, pre_strip_accents = True \<rparr>
     [codepoints ''''] = [codepoints '''']"
  "BertPreEncoder_call test_unicode_data \<lparr> pre_lowercase = False, pre_strip_accents = True \<rparr>
     [codepoints ''Br'' @ [246] @ codepoints ''tchen''] = [codepoints ''Brotchen'']"
  "BertPreEncoder_call test_unicode_data \<lparr> pre_lowercase = False, pre_strip_accents = True \<rparr>
     [codepoints ''Mw.-St.''] = [codepoints ''Mw . - St .'']"
  by (simp_all add: BertPreEncoder_call_def pre_encode_text_def normalize_word_def
      test_unicode_data_def codepoints_def)

lemma split_on_nonempty: "split_on sep xs \<noteq> []"
  by (induction xs) (auto split: list.splits)

lemma split_on_no_sep: "w \<in> set (split_on sep xs) \<Longrightarrow> sep \<notin> set w"
proof (induction xs arbitrary: w)
  case Nil
  then show ?case by simp
next
  case (Cons c cs)
  show ?case
  proof (cases "c = sep")
    case True
    with Cons show ?thesis by auto
  next
    case False
    obtain v vs where v: "split_on sep cs = v # vs"
      using split_on_nonempty [of sep cs] by (cases "split_on sep cs") auto
    with False Cons.prems have "w = c # v \<or> w \<in> set vs" by simp
    with v False Cons.IH show ?thesis by auto
  qed
qed

lemma join_split_on: "join [sep] (split_on sep xs) = xs"
proof (induction xs)
  case Nil
  then show ?case by simp
next
  case (Cons c cs)
  obtain v vs where v: "split_on sep cs = v # vs"
    using split_on_nonempty [of sep cs] by (cases "split_on sep cs") auto
  show ?case
  proof (cases "c = sep")
    case True
    with v Cons show ?thesis by simp
  next
    case False
    with v Cons show ?thesis by (cases vs) simp_all
  qed
qed

lemma split_token_tokens:
  "t \<in> set (split_token_on_punctuation P w) \<Longrightarrow>
     t \<noteq> [] \<and> set t \<subseteq> set w \<and> (\<forall>c \<in> set t. P c \<longrightarrow> t = [c])"
proof (induction P w arbitrary: t rule: split_token_on_punctuation.induct)
  case (1 P)
  then show ?case by simp
next
  case (2 P c)
  then show ?case by simp
next
  case (3 P c d cs)
  show ?case
  proof (cases "P c \<or> P d")
    case True
    with 3 show ?thesis by auto
  next
    case False
    show ?thesis
    proof (cases "split_token_on_punctuation P (d # cs)")
      case Nil
      with False 3 show ?thesis by auto
    next
      case (Cons v vs)
      with False "3.prems" have t: "t = c # v \<or> t \<in> set vs" by simp
      have hdv: "v \<noteq> [] \<and> set v \<subseteq> set (d # cs) \<and> (\<forall>x \<in> set v. P x \<longrightarrow> v = [x])"
        using "3.IH"(2) [of v] False Cons by simp
      have first: "hd v = d"
        using Cons by (cases cs) (auto split: if_splits list.splits)
      show ?thesis
      proof (cases "t = c # v")
        case True
        have "\<not> P x" if "x \<in> set v" for x
        proof
          assume "P x"
          with hdv that have "v = [x]" by blast
          with first have "x = d" by simp
          with \<open>P x\<close> False show False by simp
        qed
        with True hdv False show ?thesis by auto
      next
        case False
        with t have "t \<in> set vs" by simp
        then have "t \<in> set (split_token_on_punctuation P (d # cs))" using Cons by simp
        from "3.IH"(2) [OF _ this] \<open>\<not> (P c \<or> P d)\<close> show ?thesis by auto
      qed
    qed
  qed
qed

lemma split_token_whole:
  "w \<noteq> [] \<Longrightarrow> length w = 1 \<or> (\<forall>c \<in> set w. \<not> P c) \<Longrightarrow> split_token_on_punctuation P w = [w]"
proof (induction P w rule: split_token_on_punctuation.induct)
  case (1 P)
  then show ?case by simp
next
  case (2 P c)
  then show ?case by simp
next
  case (3 P c d cs)
  then have "\<forall>x \<in> set (c # d # cs). \<not> P x" by simp
  with 3 show ?case by simp
qed

lemma join_isolated:
  assumes "\<forall>t \<in> set ts. h \<in> set t \<longrightarrow> t = [h]" and "h \<noteq> sp"
    and "join [sp] ts = pre @ h # post"
  shows "(pre = [] \<or> last pre = sp) \<and> (post = [] \<or> hd post = sp)"
  using assms
proof (induction "[sp]" ts arbitrary: pre rule: join.induct)
  case 1
  then show ?case by simp
next
  case (2 t)
  then have "h \<in> set t" by simp
  with 2 have "t = [h]" by simp
  with 2 show ?case by (simp add: Cons_eq_append_conv)
next
  case (3 t t' ts)
  let ?J = "join [sp] (t' # ts)"
  from "3.prems" have eq: "t @ sp # ?J = pre @ h # post" by simp
  then consider us where "t = pre @ us" "us @ sp # ?J = h # post"
    | us where "t @ us = pre" "sp # ?J = us @ h # post"
    by (auto simp: append_eq_append_conv2)
  then show ?case
  proof cases
    case 1
    with \<open>h \<noteq> sp\<close> obtain us' where us: "us = h # us'" "post = us' @ sp # ?J"
      by (cases us) auto
    with 1 have "h \<in> set t" by simp
    with "3.prems" have "t = [h]" by simp
    with 1 us have "pre = []" "us' = []" by (simp_all add: Cons_eq_append_conv)
    with us show ?thesis by simp
  next
    case 2
    with \<open>h \<noteq> sp\<close> obtain us' where us: "us = sp # us'" "?J = us' @ h # post"
      by (cases us) auto
    from "3.prems" have "\<forall>t \<in> set (t' # ts). h \<in> set t \<longrightarrow> t = [h]" by simp
    from "3.hyps" [OF this \<open>h \<noteq> sp\<close> us(2)]
    have "(us' = [] \<or> last us' = sp) \<and> (post = [] \<or> hd post = sp)" .
    with 2 us show ?thesis by auto
  qed
qed

lemma hd_join:
  "t \<noteq> [] \<Longrightarrow> hd (join sep (t # ts)) = hd t"
  by (cases ts) simp_all

lemma join_single_spaces:
  assumes "\<forall>t \<in> set ts. t \<noteq> [] \<and> sp \<notin> set t"
    and "join [sp] ts = pre @ sp # post"
  shows "pre \<noteq> [] \<and> last pre \<noteq> sp \<and> post \<noteq> [] \<and> hd post \<noteq> sp"
  using assms
proof (induction "[sp]" ts arbitrary: pre rule: join.induct)
  case 1
  then show ?case by simp
next
  case (2 t)
  then have "sp \<in> set t" by simp
  with 2 show ?case by simp
next
  case (3 t t' ts)
  let ?J = "join [sp] (t' # ts)"
  from "3.prems" have t: "t \<noteq> []" "sp \<notin> set t" and t': "t' \<noteq> []" "sp \<notin> set t'"
    by simp_all
  then have J: "?J \<noteq> []" "hd ?J \<noteq> sp"
    using hd_join [of t' "[sp]" ts] by (cases ts; cases t'; auto)+
  have lt: "last t \<noteq> sp" using t by (metis last_in_set)
  from "3.prems" have eq: "t @ sp # ?J = pre @ sp # post" by simp
  then consider us where "t = pre @ us" "us @ sp # ?J = sp # post"
    | us where "t @ us = pre" "sp # ?J = us @ sp # post"
    by (auto simp: append_eq_append_conv2)
  then show ?case
  proof cases
    case 1
    show ?thesis
    proof (cases us)
      case Nil
      with 1 t lt J show ?thesis by simp
    next
      case (Cons a as)
      with 1 have "sp \<in> set t" by simp
      with t show ?thesis by simp
    qed
  next
    case 2
    show ?thesis
    proof (cases us)
      case Nil
      with 2 t lt J show ?thesis by simp
    next
      case (Cons a us')
      with 2 have us: "us = sp # us'" "?J = us' @ sp # post" by auto
      from "3.prems" have "\<forall>t \<in> set (t' # ts). t \<noteq> [] \<and> sp \<notin> set t" by simp
      from "3.hyps" [OF this us(2)]
      have "us' \<noteq> [] \<and> last us' \<noteq> sp \<and> post \<noteq> [] \<and> hd post \<noteq> sp" .
      with 2 us show ?thesis by auto
    qed
  qed
qed

lemma pre_encode_text_tokens:
  assumes "t \<in> set (concat (map (\<lambda>word. split_token_on_punctuation (ud_is_punctuation u)
                               (normalize_word u enc word)) (split_on 32 text)))"
  shows "t \<noteq> [] \<and> (\<forall>c \<in> set t. ud_is_punctuation u c \<longrightarrow> t = [c])
         \<and> (\<exists>w \<in> set (split_on 32 text). set t \<subseteq> set (normalize_word u enc w))"
proof -
  from assms obtain w where w: "w \<in> set (split_on 32 text)"
    and t: "t \<in> set (split_token_on_punctuation (ud_is_punctuation u) (normalize_word u enc w))"
    by auto
  from split_token_tokens [OF t] w show ?thesis by blast
qed

lemma last_take_nth:
  assumes "0 < i" and "i \<le> length xs"
  shows "last (take i xs) = xs ! (i - 1)"
proof -
  from assms have "take i xs \<noteq> []" by auto
  then have "last (take i xs) = take i xs ! (length (take i xs) - 1)"
    by (rule last_conv_nth)
  with assms show ?thesis by simp
qed

lemma split_token_first:
  "split_token_on_punctuation P (d # cs) = t # ts \<Longrightarrow> t \<noteq> [] \<and> hd t = d"
  by (cases cs) (auto split: if_splits list.splits)

lemma split_token_nonempty: "split_token_on_punctuation P (d # cs) \<noteq> []"
  by (cases cs) (auto split: list.splits)

lemma concat_split_token: "concat (split_token_on_punctuation P w) = w"
proof (induction P w rule: split_token_on_punctuation.induct)
  case (1 P)
  then show ?case by simp
next
  case (2 P c)
  then show ?case by simp
next
  case (3 P c d cs)
  obtain t ts where rec: "split_token_on_punctuation P (d # cs) = t # ts"
    using split_token_nonempty [of P d cs]
    by (cases "split_token_on_punctuation P (d # cs)") auto
  show ?case
  proof (cases "P c \<or> P d")
    case True
    with 3 show ?thesis by simp
  next
    case False
    with 3 rec show ?thesis by simp
  qed
qed

lemma split_token_adjacent:
  "Suc i < length (split_token_on_punctuation P w) \<Longrightarrow>
     (\<exists>c \<in> set (split_token_on_punctuation P w ! i). P c)
     \<or> (\<exists>c \<in> set (split_token_on_punctuation P w ! Suc i). P c)"
proof (induction P w arbitrary: i rule: split_token_on_punctuation.induct)
  case (1 P)
  then show ?case by simp
next
  case (2 P c)
  then show ?case by simp
next
  case (3 P c d cs)
  obtain t ts where rec: "split_token_on_punctuation P (d # cs) = t # ts"
    using split_token_nonempty [of P d cs]
    by (cases "split_token_on_punctuation P (d # cs)") auto
  from split_token_first [OF rec] have t: "t \<noteq> []" "hd t = d" by simp_all
  then have dt: "d \<in> set t" by (cases t) auto
  show ?case
  proof (cases "P c \<or> P d")
    case True
    then have ts: "split_token_on_punctuation P (c # d # cs) = [c] # t # ts"
      using rec by simp
    show ?thesis
    proof (cases i)
      case 0
      with True ts dt show ?thesis by auto
    next
      case (Suc k)
      with "3.prems" ts rec have "Suc k < length (split_token_on_punctuation P (d # cs))"
        by simp
      from "3.IH"(1) [OF True this] ts rec Suc show ?thesis by simp
    qed
  next
    case False
    then have ts: "split_token_on_punctuation P (c # d # cs) = (c # t) # ts"
      using rec by simp
    show ?thesis
    proof (cases i)
      case 0
      with "3.prems" ts have "Suc 0 < length (split_token_on_punctuation P (d # cs))"
        using rec by simp
      from "3.IH"(2) [OF False this] rec have "(\<exists>x \<in> set t. P x) \<or> (\<exists>x \<in> set (ts ! 0). P x)"
        by simp
      with ts 0 show ?thesis by auto
    next
      case (Suc k)
      with "3.prems" ts rec have "Suc i < length (split_token_on_punctuation P (d # cs))"
        by simp
      from "3.IH"(2) [OF False this] ts rec Suc show ?thesis by simp
    qed
  qed
qed

lemma filter_join:
  "filter (\<lambda>c. c \<noteq> sp) (join [sp] ts) = concat (map (filter (\<lambda>c. c \<noteq> sp)) ts)"
  by (induction "[sp]" ts rule: join.induct) simp_all

lemma set_join: "set (join sep ts) \<subseteq> set sep \<union> \<Union> (set ` set ts)"
  by (induction sep ts rule: join.induct) auto

lemma punctuation_isolated:
  assumes "ud_is_punctuation u p" and "i < length (pre_encode_text u enc text)"
    and "pre_encode_text u enc text ! i = p" and "p \<noteq> 32"
  shows "(i = 0 \<or> pre_encode_text u enc text ! (i - 1) = 32)
         \<and> (Suc i = length (pre_encode_text u enc text)
              \<or> pre_encode_text u enc text ! Suc i = 32)"
proof -
  let ?ts = "concat (map (\<lambda>word. split_token_on_punctuation (ud_is_punctuation u)
                               (normalize_word u enc word)) (split_on 32 text))"
  let ?out = "pre_encode_text u enc text"
  have out: "?out = join [32] ?ts" by (simp add: pre_encode_text_def)
  have tok: "\<forall>t \<in> set ?ts. p \<in> set t \<longrightarrow> t = [p]"
    using pre_encode_text_tokens [of _ u enc "text"] assms(1) by blast
  have split: "?out = take i ?out @ p # drop (Suc i) ?out"
    using assms(2,3) id_take_nth_drop [of i "?out"] by simp
  then have "join [32] ?ts = take i ?out @ p # drop (Suc i) ?out"
    using out by simp
  from join_isolated [OF tok assms(4) this]
  have iso: "(take i ?out = [] \<or> last (take i ?out) = 32)
             \<and> (drop (Suc i) ?out = [] \<or> hd (drop (Suc i) ?out) = 32)"
    by simp
  have left: "i = 0 \<or> ?out ! (i - 1) = 32"
  proof (cases "i = 0")
    case True
    then show ?thesis by simp
  next
    case False
    with assms(2) have "take i ?out \<noteq> []" by auto
    moreover have "last (take i ?out) = ?out ! (i - 1)"
      using assms(2) False by (intro last_take_nth) simp_all
    ultimately show ?thesis using iso by simp
  qed
  have right: "Suc i = length ?out \<or> ?out ! Suc i = 32"
  proof (cases "Suc i = length ?out")
    case True
    then show ?thesis by simp
  next
    case False
    with assms(2) have lt: "Suc i < length ?out" by simp
    then have "drop (Suc i) ?out \<noteq> []" by simp
    moreover have "hd (drop (Suc i) ?out) = ?out ! Suc i"
      using lt by (rule hd_drop_conv_nth)
    ultimately show ?thesis using iso by simp
  qed
  from left right show ?thesis by simp
qed

lemma spaces_single:
  assumes norm: "\<forall>w. 32 \<notin> set w \<longrightarrow> 32 \<notin> set (normalize_word u enc w)"
    and "i < length (pre_encode_text u enc text)"
    and "pre_encode_text u enc text ! i = 32"
  shows "0 < i \<and> Suc i < length (pre_encode_text u enc text)
         \<and> pre_encode_text u enc text ! (i - 1) \<noteq> 32
         \<and> pre_encode_text u enc text ! Suc i \<noteq> 32"
proof -
  let ?ts = "concat (map (\<lambda>word. split_token_on_punctuation (ud_is_punctuation u)
                               (normalize_word u enc word)) (split_on 32 text))"
  let ?out = "pre_encode_text u enc text"
  have out: "?out = join [32] ?ts" by (simp add: pre_encode_text_def)
  have tok: "\<forall>t \<in> set ?ts. t \<noteq> [] \<and> 32 \<notin> set t"
  proof
    fix t assume "t \<in> set ?ts"
    from pre_encode_text_tokens [OF this] obtain w
      where "t \<noteq> []" "w \<in> set (split_on 32 text)" "set t \<subseteq> set (normalize_word u enc w)"
      by blast
    moreover from this have "32 \<notin> set (normalize_word u enc w)"
      using norm split_on_no_sep [of w 32 "text"] by blast
    ultimately show "t \<noteq> [] \<and> 32 \<notin> set t" by blast
  qed
  have "?out = take i ?out @ 32 # drop (Suc i) ?out"
    using assms(2,3) id_take_nth_drop [of i "?out"] by simp
  then have "join [32] ?ts = take i ?out @ 32 # drop (Suc i) ?out"
    using out by simp
  from join_single_spaces [OF tok this]
  have s: "take i ?out \<noteq> []" "last (take i ?out) \<noteq> 32"
    "drop (Suc i) ?out \<noteq> []" "hd (drop (Suc i) ?out) \<noteq> 32"
    by simp_all
  from s(1) have i: "0 < i" by (cases i) simp_all
  from s(3) have lt: "Suc i < length ?out" by simp
  have "last (take i ?out) = ?out ! (i - 1)"
    using assms(2) i by (intro last_take_nth) simp_all
  moreover have "hd (drop (Suc i) ?out) = ?out ! Suc i"
    using lt by (rule hd_drop_conv_nth)
  ultimately show ?thesis using s i lt by simp
qed

lemma concat_map_singletons:
  "\<forall>w \<in> set ws. f w = [w] \<Longrightarrow> concat (map f ws) = ws"
  by (induction ws) simp_all

lemma isolated_unchanged:
  assumes "\<forall>w \<in> set (split_on 32 text).
             w \<noteq> [] \<and> normalize_word u enc w = w
             \<and> (length w = 1 \<or> (\<forall>c \<in> set w. \<not> ud_is_punctuation u c))"
  shows "pre_encode_text u enc text = text"
proof -
  have "\<forall>w \<in> set (split_on 32 text).
          split_token_on_punctuation (ud_is_punctuation u) (normalize_word u enc w) = [w]"
  proof
    fix w assume "w \<in> set (split_on 32 text)"
    with assms have "w \<noteq> []" "normalize_word u enc w = w"
      "length w = 1 \<or> (\<forall>c \<in> set w. \<not> ud_is_punctuation u c)"
      by blast+
    then show "split_token_on_punctuation (ud_is_punctuation u) (normalize_word u enc w) = [w]"
      by (simp add: split_token_whole)
  qed
  then have "concat (map (\<lambda>word. split_token_on_punctuation (ud_is_punctuation u)
                      (normalize_word u enc word)) (split_on 32 text)) = split_on 32 text"
    by (rule concat_map_singletons)
  then show ?thesis
    by (simp add: pre_encode_text_def join_split_on)
qed

lemma pre_encode_text_unfold:
  "pre_encode_text u enc text =
     join [32]
       (concat (map (\<lambda>word. split_token_on_punctuation (ud_is_punctuation u)
                  (if pre_strip_accents enc
                   then filter (\<lambda>c. \<not> ud_is_Mn u c)
                          (ud_normalize_NFD u (if pre_lowercase enc then ud_lower u word else word))
                   else (if pre_lowercase enc then ud_lower u word else word)))
             (split_on 32 text)))"
  by (simp add: pre_encode_text_def normalize_word_def Let_def cong: if_cong)

lemma pre_encode_text_content:
  "filter (\<lambda>c. c \<noteq> 32) (pre_encode_text u enc text) =
     concat (map (\<lambda>word. filter (\<lambda>c. c \<noteq> 32) (normalize_word u enc word)) (split_on 32 text))"
proof -
  have "concat (map (filter (\<lambda>c. c \<noteq> (32::nat))) (concat (map f ws)))
          = concat (map (\<lambda>w. filter (\<lambda>c. c \<noteq> 32) (concat (f w))) ws)" for f and ws :: "nat list list"
    by (induction ws) (simp_all add: filter_concat)
  then show ?thesis
    by (simp add: pre_encode_text_def filter_join concat_split_token)
qed

lemma stripped_no_marks:
  assumes "pre_strip_accents enc" and "\<not> ud_is_Mn u 32" and "c \<in> set (pre_encode_text u enc text)"
  shows "\<not> ud_is_Mn u c"
proof (cases "c = 32")
  case True
  with assms(2) show ?thesis by simp
next
  case False
  let ?ts = "concat (map (\<lambda>word. split_token_on_punctuation (ud_is_punctuation u)
                               (normalize_word u enc word)) (split_on 32 text))"
  from assms(3) have "c \<in> set (join [32] ?ts)" by (simp add: pre_encode_text_def)
  with set_join [of "[32]" ?ts] have "c \<in> set [32] \<union> \<Union> (set ` set ?ts)" by (rule subsetD)
  with False have "c \<in> \<Union> (set ` set ?ts)" by simp
  then obtain t where t: "t \<in> set ?ts" "c \<in> set t" by (elim UnionE imageE) simp
  from pre_encode_text_tokens [OF t(1)] obtain w where "set t \<subseteq> set (normalize_word u enc w)"
    by blast
  with t(2) have "c \<in> set (normalize_word u enc w)" by blast
  with assms(1) show ?thesis by (simp add: normalize_word_def Let_def)
qed

text \<open>
  C7. For Unicode data in which the hyphen (code point 45) is punctuation.

  The pre-encoder returns as many strings as it is given, the string at each place being
  the normalization of the string given at that place, and the empty string is mapped
  to the empty string when lowercasing and normalizing the empty string give the empty
  string.

  A text is cut into words at its spaces; each word is lowercased when \<^verbatim>\<open>lowercase\<close> is
  set and, when \<^verbatim>\<open>strip_accents\<close> is set, decomposed and freed of all nonspacing marks;
  the word is cut into tokens, and the tokens of all words are joined by single spaces.
  The tokens of a word make up the word, each token is a single punctuation character
  or a non-empty run free of punctuation, and no two adjacent tokens are both free of
  punctuation. So apart from spaces the output holds exactly the characters of the
  normalized words, in their order, and with \<^verbatim>\<open>strip_accents\<close> it holds no nonspacing
  mark.

  In every output string a hyphen, and any other punctuation character, has on either
  side the end of the string or a space; when lowercasing and normalizing introduce no
  spaces, every space has a character other than a space on either side, so the spaces
  around a hyphen are single. A text whose words (a single character each, or free of
  punctuation) are unchanged by lowercasing and accent stripping is returned as it is, so
  a hyphen that is isolated already gets no further spaces.

  With \<^verbatim>\<open>strip_accents=True\<close>, \<^verbatim>\<open>"AWO-Mitarbeiter"\<close> is mapped to \<^verbatim>\<open>"AWO - Mitarbeiter"\<close>
  when its characters are in decomposed form, none is a nonspacing mark and the hyphen
  is its only punctuation, and Br, U+00F6, tchen is mapped to \<^verbatim>\<open>"Brotchen"\<close> when U+00F6
  decomposes into o and the nonspacing mark U+0308 and the letters of \<^verbatim>\<open>"Brotchen"\<close> are
  neither marks nor punctuation.
\<close>

theorem pre_encoder_contract:
  assumes "ud_is_punctuation u 45"
  shows
    "length (BertPreEncoder_call u enc texts) = length texts
     \<and> (\<forall>i < length texts.
           BertPreEncoder_call u enc texts ! i = pre_encode_text u enc (texts ! i))
     \<and> (normalize_word u enc [] = [] \<longrightarrow> BertPreEncoder_call u enc [[]] = [[]])
     \<and> pre_encode_text u enc text =
         join [32]
           (concat (map (\<lambda>word. split_token_on_punctuation (ud_is_punctuation u)
                      (if pre_strip_accents enc
                       then filter (\<lambda>c. \<not> ud_is_Mn u c)
                              (ud_normalize_NFD u
                                 (if pre_lowercase enc then ud_lower u word else word))
                       else (if pre_lowercase enc then ud_lower u word else word)))
                 (split_on 32 text)))
     \<and> (split_on 32 text \<noteq> [] \<and> join [32] (split_on 32 text) = text
          \<and> (\<forall>w \<in> set (split_on 32 text). 32 \<notin> set w))
     \<and> (concat (split_token_on_punctuation (ud_is_punctuation u) word) = word
          \<and> (\<forall>t \<in> set (split_token_on_punctuation (ud_is_punctuation u) word).
                t \<noteq> [] \<and> (\<forall>c \<in> set t. ud_is_punctuation u c \<longrightarrow> t = [c]))
          \<and> (\<forall>i. Suc i < length (split_token_on_punctuation (ud_is_punctuation u) word) \<longrightarrow>
                (\<exists>c \<in> set (split_token_on_punctuation (ud_is_punctuation u) word ! i).
                     ud_is_punctuation u c)
                \<or> (\<exists>c \<in> set (split_token_on_punctuation (ud_is_punctuation u) word ! Suc i).
                       ud_is_punctuation u c)))
     \<and> filter (\<lambda>c. c \<noteq> 32) (pre_encode_text u enc text) =
         concat (map (\<lambda>word. filter (\<lambda>c. c \<noteq> 32)
                      (if pre_strip_accents enc
                       then filter (\<lambda>c. \<not> ud_is_Mn u c)
                              (ud_normalize_NFD u
                                 (if pre_lowercase enc then ud_lower u word else word))
                       else (if pre_lowercase enc then ud_lower u word else word)))
                 (split_on 32 text))
     \<and> (pre_strip_accents enc \<and> \<not> ud_is_Mn u 32 \<longrightarrow>
          (\<forall>c \<in> set (pre_encode_text u enc text). \<not> ud_is_Mn u c))
     \<and> (\<forall>i < length (pre_encode_text u enc text).
           pre_encode_text u enc text ! i = 45 \<longrightarrow>
             (i = 0 \<or> pre_encode_text u enc text ! (i - 1) = 32)
             \<and> (Suc i = length (pre_encode_text u enc text)
                  \<or> pre_encode_text u enc text ! Suc i = 32))
     \<and> (\<forall>i < length (pre_encode_text u enc text).
           ud_is_punctuation u (pre_encode_text u enc text ! i)
           \<and> pre_encode_text u enc text ! i \<noteq> 32 \<longrightarrow>
             (i = 0 \<or> pre_encode_text u enc text ! (i - 1) = 32)
             \<and> (Suc i = length (pre_encode_text u enc text)
                  \<or> pre_encode_text u enc text ! Suc i = 32))
     \<and> ((\<forall>w. 32 \<notin> set w \<longrightarrow> 32 \<notin> set (normalize_word u enc w)) \<longrightarrow>
          (\<forall>i < length (pre_encode_text u enc text).
             pre_encode_text u enc text ! i = 32 \<longrightarrow>
               0 < i \<and> Suc i < length (pre_encode_text u enc text)
               \<and> pre_encode_text u enc text ! (i - 1) \<noteq> 32
               \<and> pre_encode_text u enc text ! Suc i \<noteq> 32))
     \<and> ((\<forall>w \<in> set (split_on 32 text).
             w \<noteq> [] \<and> normalize_word u enc w = w
             \<and> (length w = 1 \<or> (\<forall>c \<in> set w. \<not> ud_is_punctuation u c))) \<longrightarrow>
          pre_encode_text u enc text = text)
     \<and> (ud_normalize_NFD u (codepoints ''AWO-Mitarbeiter'') = codepoints ''AWO-Mitarbeiter''
          \<and> (\<forall>c \<in> set (codepoints ''AWO-Mitarbeiter'').
                \<not> ud_is_Mn u c \<and> (ud_is_punctuation u c \<longleftrightarrow> c = 45)) \<longrightarrow>
          BertPreEncoder_call u \<lparr> pre_lowercase = False, pre_strip_accents = True \<rparr>
            [codepoints ''AWO-Mitarbeiter''] = [codepoints ''AWO - Mitarbeiter''])
     \<and> (ud_normalize_NFD u (codepoints ''Br'' @ [246] @ codepoints ''tchen'')
            = codepoints ''Bro'' @ [776] @ codepoints ''tchen''
          \<and> ud_is_Mn u 776
          \<and> (\<forall>c \<in> set (codepoints ''Brotchen'').
                \<not> ud_is_Mn u c \<and> \<not> ud_is_punctuation u c) \<longrightarrow>
          BertPreEncoder_call u \<lparr> pre_lowercase = False, pre_strip_accents = True \<rparr>
            [codepoints ''Br'' @ [246] @ codepoints ''tchen''] = [codepoints ''Brotchen''])"
proof (intro conjI)
  show "length (BertPreEncoder_call u enc texts) = length texts"
    by (simp add: BertPreEncoder_call_def)
  show "\<forall>i < length texts.
           BertPreEncoder_call u enc texts ! i = pre_encode_text u enc (texts ! i)"
    by (simp add: BertPreEncoder_call_def)
  show "normalize_word u enc [] = [] \<longrightarrow> BertPreEncoder_call u enc [[]] = [[]]"
    by (simp add: BertPreEncoder_call_def pre_encode_text_def)
  show "pre_encode_text u enc text =
         join [32]
           (concat (map (\<lambda>word. split_token_on_punctuation (ud_is_punctuation u)
                      (if pre_strip_accents enc
                       then filter (\<lambda>c. \<not> ud_is_Mn u c)
                              (ud_normalize_NFD u
                                 (if pre_lowercase enc then ud_lower u word else word))
                       else (if pre_lowercase enc then ud_lower u word else word)))
                 (split_on 32 text)))"
    by (rule pre_encode_text_unfold)
  show "split_on 32 text \<noteq> []" by (rule split_on_nonempty)
  show "join [32] (split_on 32 text) = text" by (rule join_split_on)
  show "\<forall>w \<in> set (split_on 32 text). 32 \<notin> set w"
    by (intro ballI) (rule split_on_no_sep)
  show "concat (split_token_on_punctuation (ud_is_punctuation u) word) = word"
    by (rule concat_split_token)
  show "\<forall>t \<in> set (split_token_on_punctuation (ud_is_punctuation u) word).
                t \<noteq> [] \<and> (\<forall>c \<in> set t. ud_is_punctuation u c \<longrightarrow> t = [c])"
    using split_token_tokens by blast
  show "\<forall>i. Suc i < length (split_token_on_punctuation (ud_is_punctuation u) word) \<longrightarrow>
                (\<exists>c \<in> set (split_token_on_punctuation (ud_is_punctuation u) word ! i).
                     ud_is_punctuation u c)
                \<or> (\<exists>c \<in> set (split_token_on_punctuation (ud_is_punctuation u) word ! Suc i).
                       ud_is_punctuation u c)"
    using split_token_adjacent by blast
  show "filter (\<lambda>c. c \<noteq> 32) (pre_encode_text u enc text) =
         concat (map (\<lambda>word. filter (\<lambda>c. c \<noteq> 32)
                      (if pre_strip_accents enc
                       then filter (\<lambda>c. \<not> ud_is_Mn u c)
                              (ud_normalize_NFD u
                                 (if pre_lowercase enc then ud_lower u word else word))
                       else (if pre_lowercase enc then ud_lower u word else word)))
                 (split_on 32 text))"
    using pre_encode_text_content [of u enc "text"]
    by (simp add: normalize_word_def Let_def cong: if_cong)
  show "pre_strip_accents enc \<and> \<not> ud_is_Mn u 32 \<longrightarrow>
          (\<forall>c \<in> set (pre_encode_text u enc text). \<not> ud_is_Mn u c)"
    using stripped_no_marks by blast
  show "\<forall>i < length (pre_encode_text u enc text).
           pre_encode_text u enc text ! i = 45 \<longrightarrow>
             (i = 0 \<or> pre_encode_text u enc text ! (i - 1) = 32)
             \<and> (Suc i = length (pre_encode_text u enc text)
                  \<or> pre_encode_text u enc text ! Suc i = 32)"
    using punctuation_isolated [OF assms, of _ enc "text"] by simp
  show "\<forall>i < length (pre_encode_text u enc text).
           ud_is_punctuation u (pre_encode_text u enc text ! i)
           \<and> pre_encode_text u enc text ! i \<noteq> 32 \<longrightarrow>
             (i = 0 \<or> pre_encode_text u enc text ! (i - 1) = 32)
             \<and> (Suc i = length (pre_encode_text u enc text)
                  \<or> pre_encode_text u enc text ! Suc i = 32)"
    using punctuation_isolated [of u _ _ enc "text"] by blast
  show "(\<forall>w. 32 \<notin> set w \<longrightarrow> 32 \<notin> set (normalize_word u enc w)) \<longrightarrow>
          (\<forall>i < length (pre_encode_text u enc text).
             pre_encode_text u enc text ! i = 32 \<longrightarrow>
               0 < i \<and> Suc i < length (pre_encode_text u enc text)
               \<and> pre_encode_text u enc text ! (i - 1) \<noteq> 32
               \<and> pre_encode_text u enc text ! Suc i \<noteq> 32)"
    using spaces_single [of u enc] by blast
  show "(\<forall>w \<in> set (split_on 32 text).
             w \<noteq> [] \<and> normalize_word u enc w = w
             \<and> (length w = 1 \<or> (\<forall>c \<in> set w. \<not> ud_is_punctuation u c))) \<longrightarrow>
          pre_encode_text u enc text = text"
    using isolated_unchanged [of "text" u enc] by blast
  show "ud_normalize_NFD u (codepoints ''AWO-Mitarbeiter'') = codepoints ''AWO-Mitarbeiter''
          \<and> (\<forall>c \<in> set (codepoints ''AWO-Mitarbeiter'').
                \<not> ud_is_Mn u c \<and> (ud_is_punctuation u c \<longleftrightarrow> c = 45)) \<longrightarrow>
          BertPreEncoder_call u \<lparr> pre_lowercase = False, pre_strip_accents = True \<rparr>
            [codepoints ''AWO-Mitarbeiter''] = [codepoints ''AWO - Mitarbeiter'']"
    by (simp add: BertPreEncoder_call_def pre_encode_text_def normalize_word_def codepoints_def)
  show "ud_normalize_NFD u (codepoints ''Br'' @ [246] @ codepoints ''tchen'')
            = codepoints ''Bro'' @ [776] @ codepoints ''tchen''
          \<and> ud_is_Mn u 776
          \<and> (\<forall>c \<in> set (codepoints ''Brotchen'').
                \<not> ud_is_Mn u c \<and> \<not> ud_is_punctuation u c) \<longrightarrow>
          BertPreEncoder_call u \<lparr> pre_lowercase = False, pre_strip_accents = True \<rparr>
            [codepoints ''Br'' @ [246] @ codepoints ''tchen''] = [codepoints ''Brotchen'']"
    by (simp add: BertPreEncoder_call_def pre_encode_text_def normalize_word_def codepoints_def)
qed

theorem pre_encoder_contract_witness:
  "BertPreEncoder_call test_unicode_data \<lparr> pre_lowercase = False, pre_strip_accents = True \<rparr>
     [codepoints ''AWO-Mitarbeiter''] = [codepoints ''AWO - Mitarbeiter'']
   \<and> BertPreEncoder_call test_unicode_data \<lparr> pre_lowercase = False, pre_strip_accents = True \<rparr>
     [codepoints ''-Mitarbeiter''] = [codepoints ''- Mitarbeiter'']
   \<and> BertPreEncoder_call test_unicode_data \<lparr> pre_lowercase = False, pre_strip_accents = True \<rparr>
     [codepoints ''AWO-''] = [codepoints ''AWO -'']
   \<and> BertPreEncoder_call test_unicode_data \<lparr> pre_lowercase = False, pre_strip_accents = True \<rparr>
     [codepoints ''-''] = [codepoints ''-'']
   \<and> BertPreEncoder_call test_unicode_data \<lparr> pre_lowercase = False, pre_strip_accents = True \<rparr>
     [[]] = [[]]
   \<and> BertPreEncoder_call test_unicode_data \<lparr> pre_lowercase = False, pre_strip_accents = True \<rparr>
     [codepoints ''Br'' @ [246] @ codepoints ''tchen''] = [codepoints ''Brotchen'']
   \<and> BertPreEncoder_call test_unicode_data \<lparr> pre_lowercase = False, pre_strip_accents = True \<rparr>
     [codepoints ''Mw.-St.''] = [codepoints ''Mw . - St .'']"
proof -
  let ?enc = "\<lparr> pre_lowercase = False, pre_strip_accents = True \<rparr>"
  have h: "ud_is_punctuation test_unicode_data 45"
    by (simp add: test_unicode_data_def)
  note c = pre_encoder_contract [OF h, of ?enc]
  have n: "normalize_word test_unicode_data ?enc [] = []"
    by (simp add: normalize_word_def test_unicode_data_def)
  with c have empty: "BertPreEncoder_call test_unicode_data ?enc [[]] = [[]]"
    by blast
  have "ud_normalize_NFD test_unicode_data (codepoints ''AWO-Mitarbeiter'')
          = codepoints ''AWO-Mitarbeiter''
        \<and> (\<forall>c \<in> set (codepoints ''AWO-Mitarbeiter'').
              \<not> ud_is_Mn test_unicode_data c
              \<and> (ud_is_punctuation test_unicode_data c \<longleftrightarrow> c = 45))"
    by (simp add: test_unicode_data_def codepoints_def)
  with c have awo: "BertPreEncoder_call test_unicode_data ?enc [codepoints ''AWO-Mitarbeiter'']
                      = [codepoints ''AWO - Mitarbeiter'']"
    by blast
  have "ud_normalize_NFD test_unicode_data (codepoints ''Br'' @ [246] @ codepoints ''tchen'')
            = codepoints ''Bro'' @ [776] @ codepoints ''tchen''
        \<and> ud_is_Mn test_unicode_data 776
        \<and> (\<forall>c \<in> set (codepoints ''Brotchen'').
              \<not> ud_is_Mn test_unicode_data c \<and> \<not> ud_is_punctuation test_unicode_data c)"
    by (simp add: test_unicode_data_def codepoints_def)
  with c have br: "BertPreEncoder_call test_unicode_data ?enc
                     [codepoints ''Br'' @ [246] @ codepoints ''tchen''] = [codepoints ''Brotchen'']"
    by blast
  from empty awo br pre_test_examples(2,3,4,7) show ?thesis
    by (simp only: simp_thms)
qed

end
